theory Spec2Isabelle
  imports Main
begin

section \<open>JavaScript values\<close>

text \<open>
  The handlers exchange JSON documents. A document is a tree: objects are association
  lists in insertion order (their keys are distinct in a parsed document), numbers are the
  integral ones. A string is the list of the bytes of its UTF-8 form, so
  \<^verbatim>\<open>Buffer.from(s)\<close> is the list itself and \<^verbatim>\<open>buffer.toString()\<close> gives it back
  (strings that are not well-formed Unicode, and bytes that are not UTF-8, are outside the
  model; \<^verbatim>\<open>length\<close> counts bytes, which is the count of JavaScript for ASCII).
\<close>

datatype jsval =
    JUndefined
  | JNull
  | JBool bool
  | JNum int
  | JStr string
  | JArr "jsval list"
  | JObj "(string \<times> jsval) list"

text \<open>What a \<^verbatim>\<open>throw\<close> carries: a TypeError of the runtime, or an Error with its message.\<close>

datatype js_error = TypeError | Thrown string

text \<open>The truth value JavaScript gives a value in a condition (\<^verbatim>\<open>!x\<close>, \<^verbatim>\<open>x ? a : b\<close>, \<^verbatim>\<open>x || y\<close>).\<close>

fun truthy :: "jsval \<Rightarrow> bool" where
  "truthy JUndefined = False"
| "truthy JNull = False"
| "truthy (JBool b) = b"
| "truthy (JNum n) = (n \<noteq> 0)"
| "truthy (JStr s) = (s \<noteq> [])"
| "truthy (JArr xs) = True"
| "truthy (JObj kvs) = True"

text \<open>\<^verbatim>\<open>a || b\<close> on values.\<close>

definition js_or :: "jsval \<Rightarrow> jsval \<Rightarrow> jsval" where
  "js_or a b = (if truthy a then a else b)"

text \<open>
  Property access \<^verbatim>\<open>x.k\<close>: a TypeError on \<^verbatim>\<open>undefined\<close> and \<^verbatim>\<open>null\<close>,
  the stored value on an object, \<^verbatim>\<open>length\<close> on strings and arrays, and
  \<^verbatim>\<open>undefined\<close> for everything else.
\<close>

fun get_prop :: "jsval \<Rightarrow> string \<Rightarrow> js_error + jsval" where
  "get_prop JUndefined k = Inl TypeError"
| "get_prop JNull k = Inl TypeError"
| "get_prop (JObj kvs) k = Inr (case map_of kvs k of None \<Rightarrow> JUndefined | Some v \<Rightarrow> v)"
| "get_prop (JStr s) k = Inr (if k = ''length'' then JNum (int (length s)) else JUndefined)"
| "get_prop (JArr xs) k = Inr (if k = ''length'' then JNum (int (length xs)) else JUndefined)"
| "get_prop (JBool b) k = Inr JUndefined"
| "get_prop (JNum n) k = Inr JUndefined"

text \<open>A variable of the process environment is a string or absent; \<^verbatim>\<open>v || d\<close> on it.\<close>

definition env_or :: "string option \<Rightarrow> string \<Rightarrow> string" where
  "env_or v d = (case v of None \<Rightarrow> d | Some s \<Rightarrow> if s = [] then d else s)"

text \<open>The truth value of an optional string (a metadata field, an environment variable).\<close>

definition present :: "string option \<Rightarrow> bool" where
  "present v = (case v of None \<Rightarrow> False | Some s \<Rightarrow> s \<noteq> [])"

record env =
  APIFY_TOKEN :: "string option"
  APOLLO_ACTOR_ID :: "string option"
  EMAIL_WEBHOOK_URL :: "string option"
  STRIPE_SECRET_KEY :: "string option"
  STRIPE_WEBHOOK_SECRET :: "string option"

record response =
  status :: nat
  headers :: "(string \<times> string) list"
  body :: "jsval option"

section \<open>The configuration endpoint\<close>

text \<open>
  The handler of the configuration endpoint: CORS headers on every answer, an empty 200
  for OPTIONS, the configuration object for GET, 405 otherwise. Nothing in the GET branch
  throws, so its \<^verbatim>\<open>catch\<close> (a 500) is never taken.
\<close>

definition cors_headers :: "(string \<times> string) list" where
  "cors_headers =
     [(''Access-Control-Allow-Origin'', ''*''),
      (''Access-Control-Allow-Methods'', ''GET, OPTIONS''),
      (''Access-Control-Allow-Headers'', ''Content-Type'')]"

definition config_object :: "env \<Rightarrow> jsval" where
  "config_object e =
     JObj [(''APIFY_TOKEN'', JStr (env_or (APIFY_TOKEN e) '''')),
           (''APOLLO_ACTOR_ID'', JStr (env_or (APOLLO_ACTOR_ID e) ''code_crafter/apollo-io-scraper'')),
           (''EMAIL_WEBHOOK_URL'', JStr (env_or (EMAIL_WEBHOOK_URL e) '''')),
           (''DEFAULT_SETTINGS'',
              JObj [(''maxLeads'', JNum 50000), (''defaultLeads'', JNum 100),
                    (''timeout'', JNum 3600000)]),
           (''API'',
              JObj [(''baseUrl'', JStr ''https://api.apify.com/v2''), (''timeout'', JNum 30000)]),
           (''SECURITY'',
              JObj [(''allowedOrigins'', JArr [JStr ''*'']), (''rateLimitPerMinute'', JNum 10)])]"

definition config_handler :: "env \<Rightarrow> string \<Rightarrow> response" where
  "config_handler e method =
     (if method = ''OPTIONS'' then \<lparr>status = 200, headers = cors_headers, body = None\<rparr>
      else if method = ''GET'' then
        \<lparr>status = 200, headers = cors_headers, body = Some (config_object e)\<rparr>
      else \<lparr>status = 405, headers = cors_headers,
             body = Some (JObj [(''error'', JStr ''Method not allowed'')])\<rparr>)"

text \<open>The strings that stand anywhere in a document.\<close>

fun strings_of :: "jsval \<Rightarrow> string set" where
  "strings_of (JStr s) = {s}"
| "strings_of (JArr xs) = (\<Union>x \<in> set xs. strings_of x)"
| "strings_of (JObj kvs) = (\<Union>kv \<in> set kvs. strings_of (snd kv))"
| "strings_of v = {}"

section \<open>Numbers as strings\<close>

text \<open>
  \<^verbatim>\<open>n.toString()\<close> of an integral number is its decimal form, and \<^verbatim>\<open>parseInt\<close>
  reads it back: leading white space is skipped, a sign is read, a prefix
  \<^verbatim>\<open>0x\<close> selects radix 16, and the longest run of digits is the result (NaN, here
  \<open>None\<close>, when the run is empty). White space is the ASCII white space; numbers beyond
  the exact range of a double are outside the model.
\<close>

definition digit_char :: "nat \<Rightarrow> char" where
  "digit_char d = char_of (48 + d)"

function decimal :: "nat \<Rightarrow> string" where
  "decimal n = (if n < 10 then [digit_char n] else decimal (n div 10) @ [digit_char (n mod 10)])"
  by pat_completeness auto
termination
  by (relation "measure id") auto

declare decimal.simps [simp del]

definition int_to_string :: "int \<Rightarrow> string" where
  "int_to_string i = (if i < 0 then CHR ''-'' # decimal (nat (- i)) else decimal (nat i))"

definition digit_val :: "nat \<Rightarrow> char \<Rightarrow> nat option" where
  "digit_val radix c =
     (let x = (of_char c :: nat);
          d = (if 48 \<le> x \<and> x \<le> 57 then Some (x - 48)
               else if 97 \<le> x \<and> x \<le> 122 then Some (x - 87)
               else if 65 \<le> x \<and> x \<le> 90 then Some (x - 55)
               else None)
      in case d of None \<Rightarrow> None | Some v \<Rightarrow> if v < radix then Some v else None)"

definition is_digit :: "nat \<Rightarrow> char \<Rightarrow> bool" where
  "is_digit radix c = (digit_val radix c \<noteq> None)"

definition is_space :: "char \<Rightarrow> bool" where
  "is_space c = ((of_char c :: nat) \<in> {9, 10, 11, 12, 13, 32})"

definition parse_digits :: "nat \<Rightarrow> string \<Rightarrow> nat option" where
  "parse_digits radix s =
     (let z = takeWhile (is_digit radix) s
      in if z = [] then None
         else Some (foldl (\<lambda>acc c. acc * radix + the (digit_val radix c)) 0 z))"

definition parse_unsigned :: "string \<Rightarrow> nat option" where
  "parse_unsigned s =
     (if take 2 s = ''0x'' \<or> take 2 s = ''0X'' then parse_digits 16 (drop 2 s)
      else parse_digits 10 s)"

definition parseInt :: "string \<Rightarrow> int option" where
  "parseInt str =
     (let s = dropWhile is_space str
      in case s of
           [] \<Rightarrow> None
         | c # r \<Rightarrow>
             if c = CHR ''-'' then map_option (\<lambda>n. - int n) (parse_unsigned r)
             else if c = CHR ''+'' then map_option int (parse_unsigned r)
             else map_option int (parse_unsigned s))"

text \<open>\<^verbatim>\<open>String(v)\<close>, which \<^verbatim>\<open>parseInt(v)\<close> applies to a value that is not a string.\<close>

fun join_comma :: "string list \<Rightarrow> string" where
  "join_comma [] = []"
| "join_comma [s] = s"
| "join_comma (s # t # r) = s @ '','' @ join_comma (t # r)"

fun js_toString :: "jsval \<Rightarrow> string" where
  "js_toString JUndefined = ''undefined''"
| "js_toString JNull = ''null''"
| "js_toString (JBool b) = (if b then ''true'' else ''false'')"
| "js_toString (JNum n) = int_to_string n"
| "js_toString (JStr s) = s"
| "js_toString (JArr xs) =
     join_comma (map (\<lambda>x. if x = JNull \<or> x = JUndefined then [] else js_toString x) xs)"
| "js_toString (JObj kvs) = ''[object Object]''"

definition parseInt_js :: "jsval \<Rightarrow> int option" where
  "parseInt_js v = parseInt (js_toString v)"

text \<open>A number as \<^verbatim>\<open>JSON.stringify\<close> writes it: NaN becomes \<^verbatim>\<open>null\<close>.\<close>

definition num_json :: "int option \<Rightarrow> jsval" where
  "num_json n = (case n of None \<Rightarrow> JNull | Some i \<Rightarrow> JNum i)"

section \<open>Base64\<close>

text \<open>
  \<^verbatim>\<open>buffer.toString('base64')\<close> is the standard alphabet with padding.
  \<^verbatim>\<open>Buffer.from(s, 'base64')\<close> is the lenient decoder of the runtime: it stops at the
  first \<^verbatim>\<open>=\<close>, skips every character outside the alphabet, takes the URL-safe
  characters as well, and decodes a last incomplete group as far as it goes.
\<close>

definition b64_alphabet :: string where
  "b64_alphabet = ''ABCDEFGHIJKLMNOPQRSTUVWXYZabcdefghijklmnopqrstuvwxyz0123456789+/''"

definition b64_char :: "nat \<Rightarrow> char" where
  "b64_char i = b64_alphabet ! (i mod 64)"

definition group24 :: "nat \<Rightarrow> nat \<Rightarrow> nat \<Rightarrow> nat" where
  "group24 x y z = (x * 256 + y) * 256 + z"

fun b64_encode :: "string \<Rightarrow> string" where
  "b64_encode [] = []"
| "b64_encode [a] =
     (let n = group24 (of_char a) 0 0
      in [b64_char (n div 262144), b64_char (n div 4096 mod 64), CHR ''='', CHR ''=''])"
| "b64_encode [a, b] =
     (let n = group24 (of_char a) (of_char b) 0
      in [b64_char (n div 262144), b64_char (n div 4096 mod 64), b64_char (n div 64 mod 64),
          CHR ''=''])"
| "b64_encode (a # b # c # rest) =
     (let n = group24 (of_char a) (of_char b) (of_char c)
      in [b64_char (n div 262144), b64_char (n div 4096 mod 64), b64_char (n div 64 mod 64),
          b64_char (n mod 64)] @ b64_encode rest)"

definition b64_value :: "char \<Rightarrow> nat option" where
  "b64_value c =
     (if c = CHR ''-'' then Some 62 else if c = CHR ''_'' then Some 63
      else map_of (zip b64_alphabet [0..<64]) c)"

definition sextets :: "string \<Rightarrow> nat list" where
  "sextets s = List.map_filter b64_value (takeWhile (\<lambda>c. c \<noteq> CHR ''='') s)"

fun decode_groups :: "nat list \<Rightarrow> string" where
  "decode_groups (a # b # c # d # rest) =
     (let n = ((a * 64 + b) * 64 + c) * 64 + d
      in [char_of (n div 65536), char_of (n div 256 mod 256), char_of (n mod 256)]
         @ decode_groups rest)"
| "decode_groups [a, b, c] =
     (let n = ((a * 64 + b) * 64 + c) * 64
      in [char_of (n div 65536), char_of (n div 256 mod 256)])"
| "decode_groups [a, b] =
     (let n = (a * 64 + b) * 4096 in [char_of (n div 65536)])"
| "decode_groups xs = []"

definition b64_decode :: "string \<Rightarrow> string" where
  "b64_decode s = decode_groups (sextets s)"

section \<open>Checkout: the metadata envelope\<close>

text \<open>
  The checkout handler copies the order into the metadata of the payment session, every
  field a string: the URL truncated to 450 characters, and the base64 form of the whole
  URL cut into chunks of 450 characters under the keys \<^verbatim>\<open>urlChunk0\<close>,
  \<^verbatim>\<open>urlChunk1\<close>, ... with their number under \<^verbatim>\<open>urlChunkCount\<close>.
\<close>

type_synonym metadata = "string \<rightharpoonup> string"

definition chunkSize :: nat where
  "chunkSize = 450"

text \<open>The loop \<^verbatim>\<open>for (i = 0; i < length; i += chunkSize) push(slice(i, i + chunkSize))\<close>.\<close>

function url_chunks :: "nat \<Rightarrow> string \<Rightarrow> string list" where
  "url_chunks i s =
     (if i < length s then take chunkSize (drop i s) # url_chunks (i + chunkSize) s else [])"
  by pat_completeness auto
termination
  by (relation "measure (\<lambda>(i, s). length s - i)") (auto simp: chunkSize_def)

declare url_chunks.simps [simp del]

definition chunk_key :: "nat \<Rightarrow> string" where
  "chunk_key i = ''urlChunk'' @ decimal i"

text \<open>\<^verbatim>\<open>urlChunks.forEach((chunk, index) => metadata['urlChunk' + index] = chunk)\<close>.\<close>

fun add_chunks :: "metadata \<Rightarrow> nat \<Rightarrow> string list \<Rightarrow> metadata" where
  "add_chunks md i [] = md"
| "add_chunks md i (c # cs) = add_chunks (md(chunk_key i \<mapsto> c)) (Suc i) cs"

definition truncatedUrl :: "string \<Rightarrow> string" where
  "truncatedUrl apolloUrl =
     (if length apolloUrl > 450 then take 450 apolloUrl @ ''...'' else apolloUrl)"

definition checkout_metadata ::
  "int \<Rightarrow> string \<Rightarrow> string \<Rightarrow> jsval \<Rightarrow> string \<Rightarrow> string \<Rightarrow> metadata" where
  "checkout_metadata leads apolloUrl email cleanOutput timestamp orderId =
     (let urlChunks = url_chunks 0 (b64_encode apolloUrl)
      in add_chunks
           [''leads'' \<mapsto> int_to_string leads,
            ''apolloUrl'' \<mapsto> truncatedUrl apolloUrl,
            ''email'' \<mapsto> email,
            ''cleanOutput'' \<mapsto> (if truthy cleanOutput then ''true'' else ''false''),
            ''timestamp'' \<mapsto> timestamp,
            ''orderId'' \<mapsto> orderId,
            ''fullUrlLength'' \<mapsto> decimal (length apolloUrl),
            ''urlChunkCount'' \<mapsto> decimal (length urlChunks)]
           0 urlChunks)"

section \<open>The file system, the outside world and the effects of a handler\<close>

text \<open>
  The two stores are directories of the local disk. A path holds a directory or a file; a
  file holds a JSON document, or bytes that \<^verbatim>\<open>JSON.parse\<close> rejects (\<open>None\<close>).
  \<^verbatim>\<open>JSON.parse(JSON.stringify(d))\<close> is taken to be \<open>d\<close>. A path is a directory and a
  file name joined by a slash (\<^verbatim>\<open>path.join\<close> also normalises dots and slashes inside a
  session id; the identifiers the payment gateway issues have none). A call of the file
  system fails only for the kind of the paths it meets (a missing file, a directory in the
  place of a file); a full or unreadable disk is outside the model.
\<close>

datatype node = Dir | File "jsval option"

type_synonym filesystem = "string \<rightharpoonup> node"

text \<open>
  Every call of the file system and every outbound request is recorded, in order, with what
  it carries: the job request with the actor id and the token of its URL and its JSON body,
  the notification with its URL and its JSON body.
\<close>

datatype effect =
    FsExists string
  | FsMkdir string
  | FsRead string
  | FsReaddir string
  | FsWrite string jsval
  | FsUnlink string
  | ApifyRun "string option" "string option" jsval
  | EmailPost string jsval

text \<open>
  The state a handler runs in and leaves behind: the disk, the effects so far, and the
  messages of \<^verbatim>\<open>console.error\<close> (without their pictograms and arguments).
\<close>

record world =
  files :: filesystem
  trace :: "effect list"
  errors :: "string list"

text \<open>What \<^verbatim>\<open>fetch\<close> comes back with: a rejection, or a status and a body (its JSON
  document, \<open>None\<close> when the body is not JSON).\<close>

datatype fetch_result = NetworkError | HttpResponse nat "jsval option"

text \<open>The checkout session an event carries: its identifier and its metadata. Events are
  the well-formed ones the payment library returns.\<close>

record session =
  sid :: string
  metadata :: metadata

record event =
  ev_type :: string
  ev_object :: session

text \<open>
  What one request meets outside the program: the verification of the payment library
  (\<^verbatim>\<open>stripe.webhooks.constructEvent\<close> on the raw body, the signature header and the
  signing secret: the event, or the message of the error it throws), the answers of the two
  outbound requests, the draws of \<^verbatim>\<open>Math.floor(Math.random() * 36)\<close> and the clock.
\<close>

record ext =
  constructEvent :: "string \<Rightarrow> string option \<Rightarrow> string option \<Rightarrow> string + event"
  apify_response :: fetch_result
  email_response :: fetch_result
  random_index :: "nat \<Rightarrow> nat"
  now_iso :: string
  now_ms :: int

record request =
  req_method :: string
  stripe_signature :: "string option"
  raw_body :: "string option"

definition TEMP_DIR :: string where
  "TEMP_DIR = ''/tmp/apollo-urls''"

definition PROCESSED_DIR :: string where
  "PROCESSED_DIR = ''/tmp/processed-sessions''"

definition path_join :: "string \<Rightarrow> string \<Rightarrow> string" where
  "path_join d n = d @ ''/'' @ n"

definition emit :: "effect \<Rightarrow> world \<Rightarrow> world" where
  "emit a w = w\<lparr>trace := trace w @ [a]\<rparr>"

definition console_error :: "string \<Rightarrow> world \<Rightarrow> world" where
  "console_error m w = w\<lparr>errors := errors w @ [m]\<rparr>"

definition existsSync :: "string \<Rightarrow> world \<Rightarrow> bool \<times> world" where
  "existsSync p w = (files w p \<noteq> None, emit (FsExists p) w)"

text \<open>\<^verbatim>\<open>mkdirSync(p, {recursive: true})\<close>, called on a path that does not exist.\<close>

definition mkdirSync :: "string \<Rightarrow> world \<Rightarrow> world" where
  "mkdirSync p w = emit (FsMkdir p) (w\<lparr>files := (files w)(p \<mapsto> Dir)\<rparr>)"

text \<open>\<^verbatim>\<open>JSON.parse(fs.readFileSync(p, 'utf8'))\<close>: throws on a directory, on a missing file
  and on a file that is not JSON.\<close>

definition read_json :: "string \<Rightarrow> world \<Rightarrow> (js_error + jsval) \<times> world" where
  "read_json p w =
     (case files w p of
        Some (File (Some d)) \<Rightarrow> Inr d
      | _ \<Rightarrow> Inl (Thrown ''read''),
      emit (FsRead p) w)"

text \<open>\<^verbatim>\<open>writeFileSync\<close> of a JSON document into a directory: throws when the directory
  is not one, or the path is a directory.\<close>

definition writeFileSync :: "string \<Rightarrow> string \<Rightarrow> jsval \<Rightarrow> world \<Rightarrow> (js_error + unit) \<times> world" where
  "writeFileSync d n doc w =
     (let p = path_join d n; w1 = emit (FsWrite p doc) w
      in if files w d = Some Dir \<and> files w p \<noteq> Some Dir
         then (Inr (), w1\<lparr>files := (files w)(p \<mapsto> File (Some doc))\<rparr>)
         else (Inl (Thrown ''write''), w1))"

definition unlinkSync :: "string \<Rightarrow> world \<Rightarrow> (js_error + unit) \<times> world" where
  "unlinkSync p w =
     (let w1 = emit (FsUnlink p) w
      in case files w p of
           Some (File c) \<Rightarrow> (Inr (), w1\<lparr>files := (files w)(p := None)\<rparr>)
         | _ \<Rightarrow> (Inl (Thrown ''unlink''), w1))"

section \<open>Checkout: the staging store\<close>

definition ensureTempDir :: "world \<Rightarrow> world" where
  "ensureTempDir w = (let (b, w1) = existsSync TEMP_DIR w in if \<not> b then mkdirSync TEMP_DIR w1 else w1)"

definition storeApolloUrl ::
  "string \<Rightarrow> string \<Rightarrow> string \<Rightarrow> int \<Rightarrow> jsval \<Rightarrow> string \<Rightarrow> world \<Rightarrow> (js_error + unit) \<times> world" where
  "storeApolloUrl sessionId fullUrl email leads cleanOutput timestamp w =
     (let w1 = ensureTempDir w;
          doc = JObj [(''apolloUrl'', JStr fullUrl), (''email'', JStr email),
                       (''leads'', JNum leads), (''cleanOutput'', cleanOutput),
                       (''timestamp'', JStr timestamp)]
      in writeFileSync TEMP_DIR (sessionId @ ''.json'') doc w1)"

section \<open>The webhook: ledger and staging store\<close>

definition ensureProcessedDir :: "world \<Rightarrow> world" where
  "ensureProcessedDir w =
     (let (b, w1) = existsSync PROCESSED_DIR w in if \<not> b then mkdirSync PROCESSED_DIR w1 else w1)"

definition processed_path :: "string \<Rightarrow> string" where
  "processed_path sessionId = path_join PROCESSED_DIR (sessionId @ ''.processed'')"

definition staged_path :: "string \<Rightarrow> string" where
  "staged_path sessionId = path_join TEMP_DIR (sessionId @ ''.json'')"

definition isSessionProcessed :: "string \<Rightarrow> world \<Rightarrow> bool \<times> world" where
  "isSessionProcessed sessionId w = existsSync (processed_path sessionId) (ensureProcessedDir w)"

definition markSessionProcessed :: "ext \<Rightarrow> string \<Rightarrow> world \<Rightarrow> (js_error + unit) \<times> world" where
  "markSessionProcessed x sessionId w =
     writeFileSync PROCESSED_DIR (sessionId @ ''.processed'')
       (JObj [(''sessionId'', JStr sessionId), (''processedAt'', JStr (now_iso x)),
              (''timestamp'', JNum (now_ms x))])
       (ensureProcessedDir w)"

text \<open>
  \<^verbatim>\<open>retrieveApolloUrl\<close>: the document of the session's file, or \<^verbatim>\<open>null\<close> when
  there is none or anything throws (reading or parsing the file, or
  \<^verbatim>\<open>data.apolloUrl\<close> on a document that is \<^verbatim>\<open>null\<close>). The existence of the file is
  asked twice, once for the log; on a miss the directory is listed for the log.
\<close>

definition retrieveApolloUrl :: "string \<Rightarrow> world \<Rightarrow> jsval \<times> world" where
  "retrieveApolloUrl sessionId w =
     (let filePath = staged_path sessionId;
          (_, w1) = existsSync filePath w;
          (found, w2) = existsSync filePath w1
      in if found then
           (case read_json filePath w2 of
              (Inl err, w3) \<Rightarrow> (JNull, console_error ''Error retrieving Apollo URL for session'' w3)
            | (Inr d, w3) \<Rightarrow>
                (case get_prop d ''apolloUrl'' of
                   Inl err \<Rightarrow> (JNull, console_error ''Error retrieving Apollo URL for session'' w3)
                 | Inr u \<Rightarrow> (d, w3)))
         else
           (let (there, w3) = existsSync TEMP_DIR w2
            in (JNull, if there then emit (FsReaddir TEMP_DIR) w3 else w3)))"

definition cleanupApolloUrl :: "string \<Rightarrow> world \<Rightarrow> world" where
  "cleanupApolloUrl sessionId w =
     (let filePath = staged_path sessionId;
          (found, w1) = existsSync filePath w
      in if found then
           (case unlinkSync filePath w1 of
              (Inl err, w2) \<Rightarrow> console_error ''Error cleaning up session'' w2
            | (Inr u, w2) \<Rightarrow> w2)
         else w1)"

section \<open>The webhook: fulfilment\<close>

text \<open>
  The loop that puts the chunks together again: \<^verbatim>\<open>for (i = 0; i < chunkCount; i++)\<close>,
  appending \<^verbatim>\<open>metadata['urlChunk' + i]\<close> and throwing at the first chunk that is
  missing or empty. With \<^verbatim>\<open>chunkCount\<close> NaN the condition is false at once.
\<close>

function collect_chunks :: "metadata \<Rightarrow> nat \<Rightarrow> int option \<Rightarrow> string \<Rightarrow> js_error + string" where
  "collect_chunks md i chunkCount acc =
     (case chunkCount of
        None \<Rightarrow> Inr acc
      | Some n \<Rightarrow>
          if int i < n then
            (if present (md (chunk_key i))
             then collect_chunks md (Suc i) chunkCount (acc @ the (md (chunk_key i)))
             else Inl (Thrown (''Missing chunk '' @ decimal i)))
          else Inr acc)"
  by pat_completeness auto
termination
  by (relation "measure (\<lambda>(md, i, c, acc). nat (the c) - i)") auto

declare collect_chunks.simps [simp del]

text \<open>The body of the \<^verbatim>\<open>try\<close>: the chunks in index order, decoded from base64.\<close>

definition reconstruct_url :: "metadata \<Rightarrow> string \<Rightarrow> js_error + string" where
  "reconstruct_url md urlChunkCount =
     (case collect_chunks md 0 (parseInt urlChunkCount) [] of
        Inl err \<Rightarrow> Inl err
      | Inr reconstructedBase64 \<Rightarrow> Inr (b64_decode reconstructedBase64))"

text \<open>\<^verbatim>\<open>fullApolloUrl\<close>: the truncated copy, replaced by the reconstructed URL when a
  chunk count is there and the reconstruction does not throw.\<close>

definition opt_str :: "string option \<Rightarrow> jsval" where
  "opt_str v = (case v of None \<Rightarrow> JUndefined | Some s \<Rightarrow> JStr s)"

definition fullApolloUrl :: "metadata \<Rightarrow> jsval" where
  "fullApolloUrl md =
     (if present (md ''urlChunkCount'') then
        (case reconstruct_url md (the (md ''urlChunkCount'')) of
           Inl err \<Rightarrow> opt_str (md ''apolloUrl'')
         | Inr u \<Rightarrow> JStr u)
      else opt_str (md ''apolloUrl''))"

definition characters :: string where
  "characters = ''ABCDEFGHIJKLMNOPQRSTUVWXYZ0123456789''"

definition generateRandomFileName :: "ext \<Rightarrow> string" where
  "generateRandomFileName x = map (\<lambda>i. characters ! (random_index x i mod 36)) [0..<6]"

definition response_ok :: "nat \<Rightarrow> bool" where
  "response_ok st = (200 \<le> st \<and> st \<le> 299)"

text \<open>\<^verbatim>\<open>result.data?.id || result.id || result.runId\<close>.\<close>

definition run_id :: "jsval \<Rightarrow> js_error + jsval" where
  "run_id result =
     (case get_prop result ''data'' of
        Inl err \<Rightarrow> Inl err
      | Inr d \<Rightarrow>
          (let a = (if d = JUndefined \<or> d = JNull then JUndefined
                    else (case get_prop d ''id'' of Inl err \<Rightarrow> JUndefined | Inr v \<Rightarrow> v))
           in case get_prop result ''id'' of
                Inl err \<Rightarrow> Inl err
              | Inr b \<Rightarrow>
                  (case get_prop result ''runId'' of
                     Inl err \<Rightarrow> Inl err
                   | Inr c \<Rightarrow> Inr (js_or (js_or a b) c))))"

text \<open>
  \<^verbatim>\<open>triggerApolloScraper\<close>: the run identifier, or what it throws. The log line before
  the request calls \<^verbatim>\<open>payload.url.substring\<close>, a TypeError unless the URL is a string;
  then the one POST to the actor; a rejection, a status outside 200..299, a body that is
  not JSON and a \<^verbatim>\<open>null\<close> body throw. Whatever is thrown is logged and thrown again.
\<close>

definition triggerApolloScraper ::
  "env \<Rightarrow> ext \<Rightarrow> jsval \<Rightarrow> int option \<Rightarrow> string \<Rightarrow> jsval \<Rightarrow> bool \<Rightarrow> world \<Rightarrow> (js_error + jsval) \<times> world" where
  "triggerApolloScraper e x url totalRecords fileName email cleanOutput w =
     (let payload = JObj [(''url'', url), (''totalRecords'', num_json totalRecords),
                          (''fileName'', JStr fileName), (''email'', email),
                          (''cleanOutput'', JBool cleanOutput)];
          failed = (\<lambda>err w'. (Inl err, console_error ''Error details:''
                      (console_error ''Error triggering YOUR Apollo scraper:'' w')))
      in case url of
           JStr u \<Rightarrow>
             (let w1 = emit (ApifyRun (APOLLO_ACTOR_ID e) (APIFY_TOKEN e) payload) w
              in case apify_response x of
                   NetworkError \<Rightarrow> failed (Thrown ''fetch failed'') w1
                 | HttpResponse st b \<Rightarrow>
                     if \<not> response_ok st then
                       failed (Thrown ''Apollo actor API call failed'')
                         (console_error ''Apify API error response:'' w1)
                     else
                       (case b of
                          None \<Rightarrow> failed (Thrown ''invalid json'') w1
                        | Some result \<Rightarrow>
                            (case run_id result of
                               Inl err \<Rightarrow> failed err w1
                             | Inr runId \<Rightarrow> (Inr runId, w1))))
         | _ \<Rightarrow> failed TypeError w)"

text \<open>
  \<^verbatim>\<open>sendEmailWebhook\<close>: nothing when no URL is configured, else one POST; it catches
  whatever the request throws and logs it.
\<close>

definition sendEmailWebhook ::
  "env \<Rightarrow> ext \<Rightarrow> jsval \<Rightarrow> int option \<Rightarrow> jsval \<Rightarrow> string \<Rightarrow> world \<Rightarrow> world" where
  "sendEmailWebhook e x email leadCount apolloUrl fileName w =
     (if \<not> present (EMAIL_WEBHOOK_URL e) then w
      else
        (let emailPayload =
               JObj [(''email'', email), (''leadCount'', num_json leadCount),
                     (''apolloUrl'', apolloUrl), (''timestamp'', JStr (now_iso x)),
                     (''service'', JStr ''apollo-scraper''), (''fileName'', JStr fileName),
                     (''source'', JStr ''stripe-payment'')];
             w1 = emit (EmailPost (the (EMAIL_WEBHOOK_URL e)) emailPayload) w
         in case email_response x of
              NetworkError \<Rightarrow>
                console_error ''Email webhook error details:''
                  (console_error ''Email webhook error stack:''
                    (console_error ''Email webhook error:'' w1))
            | HttpResponse st b \<Rightarrow> w1))"

text \<open>The order as the fallback builds it from the metadata.\<close>

definition metadata_order :: "metadata \<Rightarrow> jsval" where
  "metadata_order md =
     JObj [(''apolloUrl'', fullApolloUrl md), (''email'', opt_str (md ''email'')),
           (''leads'', opt_str (md ''leads'')), (''cleanOutput'', opt_str (md ''cleanOutput''))]"

text \<open>
  The part of \<^verbatim>\<open>handleSuccessfulPayment\<close> after the order is recovered: the fields of
  the order, the file name, the log line that reads \<^verbatim>\<open>apolloUrl.length\<close>, the job, the
  notification, the deletion of the pending order and the entry of the ledger. \<open>Inl\<close> is
  what reaches the \<^verbatim>\<open>catch\<close> of the function.
\<close>

definition fulfil :: "env \<Rightarrow> ext \<Rightarrow> string \<Rightarrow> jsval \<Rightarrow> world \<Rightarrow> (js_error + unit) \<times> world" where
  "fulfil e x sessionId storedData w =
     (case (get_prop storedData ''apolloUrl'', get_prop storedData ''email'',
            get_prop storedData ''leads'', get_prop storedData ''cleanOutput'') of
        (Inr apolloUrl, Inr email, Inr leads, Inr cleanOutput) \<Rightarrow>
          (let fileName = generateRandomFileName x
           in case get_prop apolloUrl ''length'' of
                Inl err \<Rightarrow> (Inl err, w)
              | Inr len \<Rightarrow>
                  (case triggerApolloScraper e x apolloUrl (parseInt_js leads) fileName email
                          (cleanOutput = JStr ''true'') w of
                     (Inl err, w1) \<Rightarrow> (Inl err, w1)
                   | (Inr runId, w1) \<Rightarrow>
                       (let w2 = sendEmailWebhook e x email (parseInt_js leads) apolloUrl fileName w1;
                            w3 = cleanupApolloUrl sessionId w2
                        in markSessionProcessed x sessionId w3)))
      | _ \<Rightarrow> (Inl TypeError, w))"

text \<open>
  \<^verbatim>\<open>handleSuccessfulPayment\<close>: nothing for a session of the ledger; the pending order
  of the staging store, or the order of the metadata when there is none (nothing without
  \<^verbatim>\<open>leads\<close> or \<^verbatim>\<open>email\<close>); then the fulfilment. Whatever is thrown is caught and
  logged (\<open>caught\<close>).
\<close>

definition caught :: "(js_error + unit) \<times> world \<Rightarrow> world" where
  "caught r =
     (case r of
        (Inl err, w) \<Rightarrow> console_error ''Error processing successful payment:'' w
      | (Inr u, w) \<Rightarrow> w)"

definition handleSuccessfulPayment :: "env \<Rightarrow> ext \<Rightarrow> session \<Rightarrow> world \<Rightarrow> world" where
  "handleSuccessfulPayment e x s w =
     (let (already, w1) = isSessionProcessed (sid s) w
      in if already then w1
         else
           (let (storedData, w2) = retrieveApolloUrl (sid s) w1
            in if \<not> truthy storedData then
                 (let w3 = console_error ''No stored Apollo URL found for session:'' w2
                  in if \<not> present (metadata s ''leads'') \<or> \<not> present (metadata s ''email'')
                     then console_error ''Missing required metadata in session:'' w3
                     else caught (fulfil e x (sid s) (metadata_order (metadata s)) w3))
               else
                 (case get_prop storedData ''apolloUrl'' of
                    Inl err \<Rightarrow> caught (Inl err, w2)
                  | Inr u \<Rightarrow>
                      (case get_prop u ''length'' of
                         Inl err \<Rightarrow> caught (Inl err, w2)
                       | Inr len \<Rightarrow> caught (fulfil e x (sid s) storedData w2)))))"

text \<open>
  The handler of the webhook: 405 unless POST; the raw body and its verification, 400 when
  reading or verifying throws; the dispatch on the type of the event; 200.
\<close>

definition verified_event :: "env \<Rightarrow> ext \<Rightarrow> request \<Rightarrow> string + event" where
  "verified_event e x req =
     (case raw_body req of
        None \<Rightarrow> Inl ''aborted''
      | Some rawBody \<Rightarrow>
          constructEvent x rawBody (stripe_signature req) (STRIPE_WEBHOOK_SECRET e))"

definition handler :: "env \<Rightarrow> ext \<Rightarrow> request \<Rightarrow> world \<Rightarrow> response \<times> world" where
  "handler e x req w =
     (if req_method req \<noteq> ''POST'' then
        (\<lparr>status = 405, headers = [], body = Some (JObj [(''error'', JStr ''Method not allowed'')])\<rparr>, w)
      else
        (case verified_event e x req of
           Inl msg \<Rightarrow>
             (\<lparr>status = 400, headers = [],
               body = Some (JObj [(''error'',
                        JStr (''Webhook signature verification failed: '' @ msg))])\<rparr>,
              console_error ''Webhook signature verification failed:'' w)
         | Inr ev \<Rightarrow>
             (\<lparr>status = 200, headers = [], body = Some (JObj [(''received'', JBool True)])\<rparr>,
              if ev_type ev = ''checkout.session.completed''
              then handleSuccessfulPayment e x (ev_object ev) w
              else w)))"

text \<open>Requests handled one after the other, each with what it meets outside.\<close>

fun serve :: "env \<Rightarrow> (ext \<times> request) list \<Rightarrow> world \<Rightarrow> world" where
  "serve e [] w = w"
| "serve e ((x, req) # rest) w = serve e rest (snd (handler e x req w))"

section \<open>Reading a run\<close>

text \<open>The effects a run added, and their kinds.\<close>

definition new_effects :: "world \<Rightarrow> world \<Rightarrow> effect list" where
  "new_effects w w' = drop (length (trace w)) (trace w')"

fun is_job :: "effect \<Rightarrow> bool" where
  "is_job (ApifyRun a t p) = True"
| "is_job a = False"

fun is_notification :: "effect \<Rightarrow> bool" where
  "is_notification (EmailPost u p) = True"
| "is_notification a = False"

fun is_write :: "effect \<Rightarrow> bool" where
  "is_write (FsWrite p d) = True"
| "is_write (FsUnlink p) = True"
| "is_write a = False"

text \<open>Effects that are neither a job request, nor a notification, nor the writing or the
  deletion of a file.\<close>

definition quiet :: "effect list \<Rightarrow> bool" where
  "quiet t = list_all (\<lambda>a. \<not> is_job a \<and> \<not> is_notification a \<and> \<not> is_write a) t"

text \<open>The session is in the ledger; the pending order a lookup finds in the staging store.\<close>

definition in_ledger :: "world \<Rightarrow> string \<Rightarrow> bool" where
  "in_ledger w sessionId = (files w (processed_path sessionId) \<noteq> None)"

definition pending_order :: "world \<Rightarrow> string \<Rightarrow> jsval" where
  "pending_order w sessionId = fst (retrieveApolloUrl sessionId w)"

text \<open>A field of an order (\<^verbatim>\<open>undefined\<close> where there is none), the order a run recovers,
  and the body of the job request for an order.\<close>

definition field :: "jsval \<Rightarrow> string \<Rightarrow> jsval" where
  "field v k = (case get_prop v k of Inl err \<Rightarrow> JUndefined | Inr u \<Rightarrow> u)"

definition recovered_order :: "world \<Rightarrow> session \<Rightarrow> jsval" where
  "recovered_order w s =
     (if truthy (pending_order w (sid s)) then pending_order w (sid s)
      else metadata_order (metadata s))"

definition job_payload :: "ext \<Rightarrow> jsval \<Rightarrow> jsval" where
  "job_payload x order =
     JObj [(''url'', field order ''apolloUrl''),
           (''totalRecords'', num_json (parseInt_js (field order ''leads''))),
           (''fileName'', JStr (generateRandomFileName x)),
           (''email'', field order ''email''),
           (''cleanOutput'', JBool (field order ''cleanOutput'' = JStr ''true''))]"

text \<open>The request to the actor comes back with a run: a status in 200..299 and a JSON body
  that is not \<^verbatim>\<open>null\<close>.\<close>

definition trigger_ok :: "ext \<Rightarrow> bool" where
  "trigger_ok x =
     (case apify_response x of
        NetworkError \<Rightarrow> False
      | HttpResponse st b \<Rightarrow>
          response_ok st \<and> (case b of None \<Rightarrow> False | Some result \<Rightarrow> \<not> isl (run_id result)))"

section \<open>The result normaliser\<close>

text \<open>
  \<^verbatim>\<open>Object.keys(item)\<close> with \<^verbatim>\<open>item[key]\<close>: the entries of an object, the indexed
  elements of an array, the indexed characters of a string, none for a number or a boolean,
  and a TypeError for \<^verbatim>\<open>null\<close> and \<^verbatim>\<open>undefined\<close>.
\<close>

definition index_entries :: "jsval list \<Rightarrow> (string \<times> jsval) list" where
  "index_entries xs = zip (map decimal [0..<length xs]) xs"

fun own_entries :: "jsval \<Rightarrow> js_error + (string \<times> jsval) list" where
  "own_entries JUndefined = Inl TypeError"
| "own_entries JNull = Inl TypeError"
| "own_entries (JObj kvs) = Inr kvs"
| "own_entries (JArr xs) = Inr (index_entries xs)"
| "own_entries (JStr s) = Inr (index_entries (map (\<lambda>c. JStr [c]) s))"
| "own_entries (JBool b) = Inr []"
| "own_entries (JNum n) = Inr []"

text \<open>\<^verbatim>\<open>v === null || v === undefined || v === ''\<close>.\<close>

definition is_blank :: "jsval \<Rightarrow> bool" where
  "is_blank v = (v = JNull \<or> v = JUndefined \<or> v = JStr [])"

text \<open>\<^verbatim>\<open>typeof v === 'object' && !Array.isArray(v)\<close> on a value that is not \<^verbatim>\<open>null\<close>.\<close>

fun is_object :: "jsval \<Rightarrow> bool" where
  "is_object (JObj kvs) = True"
| "is_object v = False"

text \<open>\<^verbatim>\<open>data.map(f)\<close> with an \<open>f\<close> that may throw: the first throw ends the map.\<close>

fun all_right :: "('e + 'a) list \<Rightarrow> 'e + 'a list" where
  "all_right [] = Inr []"
| "all_right (Inl err # rs) = Inl err"
| "all_right (Inr v # rs) = (case all_right rs of Inl err \<Rightarrow> Inl err | Inr vs \<Rightarrow> Inr (v # vs))"

lemma own_entries_size:
  "own_entries item = Inr kvs \<Longrightarrow> (k, v) \<in> set kvs \<Longrightarrow> is_object v \<Longrightarrow> size v < size item"
proof (cases item)
  case (JObj x)
  assume "own_entries item = Inr kvs" "(k, v) \<in> set kvs"
  with JObj have "(k, v) \<in> set x" by simp
  then have "size v < Suc (size_list (size_prod (\<lambda>_. 0) size) x)"
    by (induction x) auto
  with JObj show ?thesis by simp
next
  case (JArr xs)
  assume "own_entries item = Inr kvs" "(k, v) \<in> set kvs"
  with JArr have "v \<in> set xs" by (auto simp: index_entries_def dest: set_zip_rightD)
  then have "size v < Suc (size_list size xs)" by (induction xs) auto
  with JArr show ?thesis by simp
next
  case (JStr s)
  assume "own_entries item = Inr kvs" "(k, v) \<in> set kvs" "is_object v"
  with JStr show ?thesis by (auto simp: index_entries_def dest!: set_zip_rightD)
qed auto

lemma item_size: "item \<in> set data \<Longrightarrow> size item < size_list size data"
  by (induction data) auto

text \<open>
  \<^verbatim>\<open>cleanData\<close>: every item becomes the object of its entries that are not blank; an
  entry that is an object is cleaned by the call \<^verbatim>\<open>cleanData([v])[0]\<close> and dropped when
  nothing is left of it; an entry that is an array loses its blank elements and is dropped
  when none is left.
\<close>

function cleanData :: "jsval list \<Rightarrow> js_error + jsval list" where
  "cleanData data =
     all_right (map (\<lambda>item.
       case own_entries item of
         Inl err \<Rightarrow> Inl err
       | Inr kvs \<Rightarrow>
           Inr (JObj (concat (map (\<lambda>(key, v).
             if \<not> is_blank v then
               (if is_object v then
                  (case cleanData [v] of
                     Inr [JObj cleanedNested] \<Rightarrow>
                       if cleanedNested \<noteq> [] then [(key, JObj cleanedNested)] else []
                   | _ \<Rightarrow> [])
                else
                  (case v of
                     JArr xs \<Rightarrow>
                       (let cleanedArray = filter (\<lambda>u. \<not> is_blank u) xs
                        in if cleanedArray \<noteq> [] then [(key, JArr cleanedArray)] else [])
                   | _ \<Rightarrow> [(key, v)]))
             else []) kvs)))) data)"
  by pat_completeness auto
termination
proof (relation "measure (size_list size)")
  show "wf (measure (size_list size))" by simp
next
  fix data item kvs kv key v
  assume "item \<in> set data" "own_entries item = Inr kvs" "kv \<in> set kvs" "(key, v) = kv"
    "\<not> is_blank v" "is_object v"
  then have "size v < size item" using own_entries_size by blast
  moreover have "size item < size_list size data"
    using \<open>item \<in> set data\<close> by (rule item_size)
  ultimately show "([v], data) \<in> measure (size_list size)" by simp
qed

declare cleanData.simps [simp del]




section \<open>Scenarios\<close>

text \<open>Concrete inputs: an environment with every variable set, an empty disk, an order, the
  actor's answer to a started run, a payment-completed event of the session
  \<^verbatim>\<open>cs_test_1\<close>, a library that verifies the signature \<^verbatim>\<open>valid\<close> only, and a
  signed POST.\<close>

definition demo_env :: env where
  "demo_env = \<lparr>APIFY_TOKEN = Some ''apify_api_s3cr3t'', APOLLO_ACTOR_ID = Some ''code_crafter/apollo-io-scraper'',
                EMAIL_WEBHOOK_URL = Some ''https://hooks.example/notify'',
                STRIPE_SECRET_KEY = Some ''sk_live_1'', STRIPE_WEBHOOK_SECRET = Some ''whsec_1''\<rparr>"

definition empty_disk :: world where
  "empty_disk = \<lparr>files = Map.empty, trace = [], errors = []\<rparr>"

definition demo_url :: string where
  "demo_url = ''https://app.apollo.io/#/people?page=1&personTitles[]=ceo''"

definition run_started :: fetch_result where
  "run_started = HttpResponse 201 (Some (JObj [(''data'', JObj [(''id'', JStr ''run_1'')])]))"

definition completed_event :: "metadata \<Rightarrow> event" where
  "completed_event md =
     \<lparr>ev_type = ''checkout.session.completed'', ev_object = \<lparr>sid = ''cs_test_1'', metadata = md\<rparr>\<rparr>"

definition demo_ext :: "event \<Rightarrow> fetch_result \<Rightarrow> ext" where
  "demo_ext ev r =
     \<lparr>constructEvent = (\<lambda>b s k. if s = Some ''valid'' then Inr ev
                                  else Inl ''No signatures found matching the expected signature''),
      apify_response = r, email_response = HttpResponse 200 None,
      random_index = (\<lambda>i. 7 * i + 3), now_iso = ''2024-05-01T10:00:00.000Z'',
      now_ms = 1714557600000\<rparr>"

definition signed_post :: request where
  "signed_post = \<lparr>req_method = ''POST'', stripe_signature = Some ''valid'', raw_body = Some ''{}''\<rparr>"

section \<open>The configuration endpoint and the secrets of the environment\<close>

lemma config_token_field:
  "get_prop (config_object e) ''APIFY_TOKEN'' = Inr (JStr (env_or (APIFY_TOKEN e) ''''))"
  by (simp add: config_object_def)

lemma config_exposes_token:
  "present (APIFY_TOKEN e) \<Longrightarrow>
   the (APIFY_TOKEN e) \<in> strings_of (the (body (config_handler e ''GET'')))"
  by (auto simp: config_handler_def config_object_def present_def env_or_def
           split: option.splits)

lemma config_independent_of_stripe_secrets:
  "config_handler (e\<lparr>STRIPE_SECRET_KEY := k, STRIPE_WEBHOOK_SECRET := s\<rparr>) m = config_handler e m"
  by (simp add: config_handler_def config_object_def)

text \<open>
  Claim C1. A GET of the configuration endpoint should never answer with a secret of the
  process environment. With the Apify token \<^verbatim>\<open>apify_api_s3cr3t\<close> in the environment,
  the answer is a 200 whose body holds that token in its field \<^verbatim>\<open>APIFY_TOKEN\<close>: the
  endpoint hands the token to every caller.
\<close>

theorem C1_config_get_exposes_apify_token:
  "status (config_handler
      \<lparr>APIFY_TOKEN = Some ''apify_api_s3cr3t'', APOLLO_ACTOR_ID = None,
       EMAIL_WEBHOOK_URL = None, STRIPE_SECRET_KEY = Some ''sk_live_1'',
       STRIPE_WEBHOOK_SECRET = Some ''whsec_1''\<rparr> ''GET'') = 200
   \<and> ''apify_api_s3cr3t'' \<in> strings_of (the (body (config_handler
      \<lparr>APIFY_TOKEN = Some ''apify_api_s3cr3t'', APOLLO_ACTOR_ID = None,
       EMAIL_WEBHOOK_URL = None, STRIPE_SECRET_KEY = Some ''sk_live_1'',
       STRIPE_WEBHOOK_SECRET = Some ''whsec_1''\<rparr> ''GET'')))"
  by (simp add: config_handler_def config_object_def env_or_def)

section \<open>The metadata codec\<close>

subsection \<open>Decimal strings\<close>

lemma digit_char_code: "d < 10 \<Longrightarrow> (of_char (digit_char d) :: nat) = 48 + d"
  by (simp add: digit_char_def)

lemma digit_char_neq:
  "d < 10 \<Longrightarrow> (of_char c :: nat) < 48 \<or> (of_char c :: nat) > 57 \<Longrightarrow> digit_char d \<noteq> c"
  using digit_char_code[of d] by auto

lemma digit_val_digit_char: "d < 10 \<Longrightarrow> digit_val 10 (digit_char d) = Some d"
  by (simp add: digit_val_def digit_char_def Let_def)

lemma decimal_digits: "c \<in> set (decimal n) \<Longrightarrow> \<exists>d<10. c = digit_char d"
proof (induction n rule: decimal.induct)
  case (1 n)
  show ?case
  proof (cases "n < 10")
    case True
    with 1(2) show ?thesis by (auto simp: decimal.simps[of n])
  next
    case False
    with 1 show ?thesis
      by (auto simp: decimal.simps[of n] intro: exI[of _ "n mod 10"])
  qed
qed

lemma decimal_ne: "decimal n \<noteq> []"
  by (subst decimal.simps) simp

lemma foldl_decimal:
  "foldl (\<lambda>acc c. acc * 10 + the (digit_val 10 c)) 0 (decimal n) = n"
proof (induction n rule: decimal.induct)
  case (1 n)
  show ?case
  proof (cases "n < 10")
    case True
    then show ?thesis by (simp add: decimal.simps[of n] digit_val_digit_char)
  next
    case False
    with 1 show ?thesis
      by (simp add: decimal.simps[of n] digit_val_digit_char)
  qed
qed

lemma takeWhile_decimal: "takeWhile (is_digit 10) (decimal n) = decimal n"
  by (rule takeWhile_eq_all_conv[THEN iffD2])
     (auto dest!: decimal_digits simp: digit_val_digit_char is_digit_def)

lemma parse_digits_decimal: "parse_digits 10 (decimal n) = Some n"
  by (simp add: parse_digits_def Let_def takeWhile_decimal decimal_ne foldl_decimal)

lemma decimal_inj: "decimal m = decimal n \<Longrightarrow> m = n"
  by (metis parse_digits_decimal option.inject)

lemma hd_decimal: "\<exists>d<10. \<exists>r. decimal n = digit_char d # r"
proof -
  obtain c r where cr: "decimal n = c # r" using decimal_ne[of n] by (cases "decimal n") auto
  then have "c \<in> set (decimal n)" by simp
  from decimal_digits[OF this] cr show ?thesis by auto
qed

lemma non_digit_notin_decimal:
  "(of_char c :: nat) < 48 \<or> (of_char c :: nat) > 57 \<Longrightarrow> c \<notin> set (decimal n)"
  using decimal_digits[of c n] digit_char_neq[of _ c] by blast

lemma take2_decimal:
  assumes "(of_char c :: nat) < 48 \<or> (of_char c :: nat) > 57"
  shows "take 2 (decimal n) \<noteq> [a, c]"
proof
  assume "take 2 (decimal n) = [a, c]"
  then have "c \<in> set (take 2 (decimal n))" by simp
  then have "c \<in> set (decimal n)" by (rule in_set_takeD)
  with non_digit_notin_decimal[OF assms] show False by blast
qed

lemma parse_unsigned_decimal: "parse_unsigned (decimal n) = Some n"
  by (simp add: parse_unsigned_def parse_digits_decimal take2_decimal)

lemma parseInt_decimal: "parseInt (decimal n) = Some (int n)"
proof -
  obtain d r where d: "d < 10" "decimal n = digit_char d # r" using hd_decimal by blast
  have "\<not> is_space (digit_char d)" "digit_char d \<noteq> CHR ''-''" "digit_char d \<noteq> CHR ''+''"
    using d(1) digit_char_neq[of d "CHR ''-''"] digit_char_neq[of d "CHR ''+''"]
    by (auto simp: is_space_def digit_char_code)
  then show ?thesis
    using parse_unsigned_decimal[of n] by (simp add: parseInt_def d(2))
qed

subsection \<open>Base64\<close>

lemma b64_value_char_all:
  "\<forall>i \<in> set [0..<64]. b64_value (b64_char i) = Some i \<and> b64_char i \<noteq> CHR ''=''"
  by code_simp

lemma b64_value_char: "i < 64 \<Longrightarrow> b64_value (b64_char i) = Some i"
  using b64_value_char_all by simp

lemma b64_char_not_pad: "i < 64 \<Longrightarrow> b64_char i \<noteq> CHR ''=''"
  using b64_value_char_all by simp

lemma div_nest:
  "n div 262144 = n div 64 div 64 div 64" "n div 4096 = n div 64 div 64"
  "n div 65536 = n div 256 div 256" for n :: nat
  by (simp_all add: div_mult2_eq[symmetric])

lemma sextets_join:
  "((n div 262144 * 64 + n div 4096 mod 64) * 64 + n div 64 mod 64) * 64 + n mod 64 = n"
  for n :: nat
  by (simp add: div_nest)

lemma sextets_join3:
  "n mod 64 = 0 \<Longrightarrow> ((n div 262144 * 64 + n div 4096 mod 64) * 64 + n div 64 mod 64) * 64 = n"
  for n :: nat
  using sextets_join[of n] by simp

lemma sextets_join2:
  fixes n :: nat
  assumes "n mod 4096 = 0"
  shows "(n div 262144 * 64 + n div 4096 mod 64) * 4096 = n"
proof -
  have "n div 262144 * 64 + n div 4096 mod 64 = n div 4096"
    by (simp add: div_nest)
  then show ?thesis using assms by (simp add: mod_eq_0_iff_dvd)
qed

lemma group24_bytes:
  assumes "x < 256" "y < 256" "z < 256"
  shows "group24 x y z div 65536 = x" "group24 x y z div 256 mod 256 = y" "group24 x y z mod 256 = z"
proof -
  have m: "group24 x y z mod 256 = z"
    unfolding group24_def using assms(3) by (simp only: mod_mult_self3 mod_less)
  have d: "group24 x y z div 256 = x * 256 + y"
    unfolding group24_def using assms(3) by (simp only: div_mult_self3 div_less)
  have "(x * 256 + y) mod 256 = y" using assms(2) by (simp only: mod_mult_self3 mod_less)
  with d show "group24 x y z div 256 mod 256 = y" by simp
  have "(x * 256 + y) div 256 = x" using assms(2) by (simp only: div_mult_self3 div_less)
  with d show "group24 x y z div 65536 = x" by (simp only: div_nest)
  show "group24 x y z mod 256 = z" by (rule m)
qed

lemma group24_mod: "group24 x y 0 mod 64 = 0" "group24 x 0 0 mod 4096 = 0"
proof -
  have "(64::nat) dvd 256" by simp
  then have "64 dvd group24 x y 0" unfolding group24_def by simp
  then show "group24 x y 0 mod 64 = 0" by simp
  have "group24 x 0 0 = x * 16 * 4096" by (simp add: group24_def)
  then show "group24 x 0 0 mod 4096 = 0" by simp
qed

lemma group24_top:
  assumes "x < 256" "y < 256" "z < 256"
  shows "group24 x y z div 262144 < 64"
proof -
  have "group24 x y z div 262144 = group24 x y z div 65536 div 4"
    by (simp add: div_mult2_eq[symmetric])
  also have "\<dots> = x div 4" using group24_bytes(1)[OF assms] by simp
  finally show ?thesis using assms(1) by simp
qed

lemma sextets_step: "i < 64 \<Longrightarrow> sextets (b64_char i # s) = i # sextets s"
  by (simp add: sextets_def b64_char_not_pad b64_value_char)

lemma sextets_stop: "sextets (CHR ''='' # s) = []"
  by (simp add: sextets_def)

lemma sextets_Nil: "sextets [] = []"
  by (simp add: sextets_def)

lemma b64_roundtrip: "b64_decode (b64_encode bs) = bs"
  unfolding b64_decode_def
proof (induction bs rule: b64_encode.induct)
  case 1
  show ?case by (simp add: sextets_Nil)
next
  case (2 a)
  define n where "n = group24 (of_char a) 0 0"
  have top: "n div 262144 < 64" unfolding n_def by (rule group24_top) simp_all
  have enc: "b64_encode [a] = [b64_char (n div 262144), b64_char (n div 4096 mod 64), CHR ''='', CHR ''='']"
    by (simp add: Let_def n_def)
  have sx: "sextets (b64_encode [a]) = [n div 262144, n div 4096 mod 64]"
    unfolding enc using top by (simp add: sextets_step sextets_stop)
  have j: "(n div 262144 * 64 + n div 4096 mod 64) * 4096 = n"
    unfolding n_def by (rule sextets_join2) (rule group24_mod)
  have "n div 65536 = of_char a"
    unfolding n_def by (rule group24_bytes) simp_all
  then have "decode_groups [n div 262144, n div 4096 mod 64] = [a]"
    by (simp only: decode_groups.simps Let_def j) simp
  with sx show ?case by simp
next
  case (3 a b)
  define n where "n = group24 (of_char a) (of_char b) 0"
  have top: "n div 262144 < 64" unfolding n_def by (rule group24_top) simp_all
  have enc: "b64_encode [a, b] = [b64_char (n div 262144), b64_char (n div 4096 mod 64),
       b64_char (n div 64 mod 64), CHR ''='']"
    by (simp add: Let_def n_def)
  have sx: "sextets (b64_encode [a, b]) = [n div 262144, n div 4096 mod 64, n div 64 mod 64]"
    unfolding enc using top by (simp add: sextets_step sextets_stop)
  have j: "((n div 262144 * 64 + n div 4096 mod 64) * 64 + n div 64 mod 64) * 64 = n"
    unfolding n_def by (rule sextets_join3) (rule group24_mod)
  have "n div 65536 = of_char a" "n div 256 mod 256 = of_char b"
    unfolding n_def by (rule group24_bytes; simp)+
  then have "decode_groups [n div 262144, n div 4096 mod 64, n div 64 mod 64] = [a, b]"
    by (simp only: decode_groups.simps Let_def j) simp
  with sx show ?case by simp
next
  case (4 a b c rest)
  define n where "n = group24 (of_char a) (of_char b) (of_char c)"
  have top: "n div 262144 < 64" unfolding n_def by (rule group24_top) simp_all
  have enc: "b64_encode (a # b # c # rest) = b64_char (n div 262144) # b64_char (n div 4096 mod 64) #
       b64_char (n div 64 mod 64) # b64_char (n mod 64) # b64_encode rest"
    by (simp add: Let_def n_def)
  have sx: "sextets (b64_encode (a # b # c # rest)) =
      n div 262144 # n div 4096 mod 64 # n div 64 mod 64 # n mod 64 # sextets (b64_encode rest)"
    unfolding enc using top by (simp add: sextets_step)
  have j: "((n div 262144 * 64 + n div 4096 mod 64) * 64 + n div 64 mod 64) * 64 + n mod 64 = n"
    by (rule sextets_join)
  have "n div 65536 = of_char a" "n div 256 mod 256 = of_char b" "n mod 256 = of_char c"
    unfolding n_def by (rule group24_bytes; simp)+
  then have "decode_groups (n div 262144 # n div 4096 mod 64 # n div 64 mod 64 # n mod 64 # sextets (b64_encode rest))
      = a # b # c # decode_groups (sextets (b64_encode rest))"
    by (simp only: decode_groups.simps Let_def j) simp
  with sx 4 show ?case by simp
qed

subsection \<open>Chunks\<close>

lemma concat_url_chunks: "concat (url_chunks i s) = drop i s"
proof (induction i s rule: url_chunks.induct)
  case (1 i s)
  show ?case
  proof (cases "i < length s")
    case True
    have "take chunkSize (drop i s) @ drop (i + chunkSize) s = drop i s"
      by (metis add.commute append_take_drop_id drop_drop)
    with 1 True show ?thesis by (simp add: url_chunks.simps[of i s])
  next
    case False
    then show ?thesis by (simp add: url_chunks.simps[of i s])
  qed
qed

lemma url_chunks_bounds: "c \<in> set (url_chunks i s) \<Longrightarrow> c \<noteq> [] \<and> length c \<le> 450"
proof (induction i s rule: url_chunks.induct)
  case (1 i s)
  show ?case
  proof (cases "i < length s")
    case True
    with 1 show ?thesis by (auto simp: url_chunks.simps[of i s] chunkSize_def)
  next
    case False
    with 1(2) show ?thesis by (simp add: url_chunks.simps[of i s])
  qed
qed

lemma chunk_key_inj: "chunk_key i = chunk_key j \<longleftrightarrow> i = j"
  by (auto simp: chunk_key_def dest: decimal_inj)

lemma chunk_key_not_count: "chunk_key i \<noteq> ''urlChunkCount''"
proof
  assume "chunk_key i = ''urlChunkCount''"
  then have "decimal i = ''Count''" by (simp add: chunk_key_def)
  then have "CHR ''C'' \<in> set (decimal i)" by simp
  then show False using non_digit_notin_decimal[of "CHR ''C''" i] by simp
qed

lemma chunk_key_other:
  "chunk_key i \<noteq> ''leads''" "chunk_key i \<noteq> ''apolloUrl''" "chunk_key i \<noteq> ''email''"
  "chunk_key i \<noteq> ''cleanOutput''" "chunk_key i \<noteq> ''timestamp''" "chunk_key i \<noteq> ''orderId''"
  "chunk_key i \<noteq> ''fullUrlLength''"
  by (simp_all add: chunk_key_def)

lemma add_chunks_other: "(\<And>i. key \<noteq> chunk_key i) \<Longrightarrow> add_chunks md k cs key = md key"
  by (induction cs arbitrary: md k) auto

lemma add_chunks_key:
  "add_chunks md k cs (chunk_key i) =
     (if k \<le> i \<and> i < k + length cs then Some (cs ! (i - k)) else md (chunk_key i))"
proof (induction cs arbitrary: md k)
  case Nil
  show ?case by auto
next
  case (Cons c cs)
  show ?case
    unfolding add_chunks.simps Cons
    by (auto simp: chunk_key_inj nth_Cons' Suc_diff_le)
qed

lemma collect_chunks_all:
  assumes "\<And>j. i \<le> j \<Longrightarrow> j < n \<Longrightarrow> present (md (chunk_key j))"
  shows "collect_chunks md i (Some (int n)) acc =
         Inr (acc @ concat (map (\<lambda>j. the (md (chunk_key j))) [i..<n]))"
  using assms
proof (induction "n - i" arbitrary: i acc)
  case 0
  then show ?case by (simp add: collect_chunks.simps[of md i])
next
  case (Suc d)
  then have lt: "i < n" by simp
  have p: "present (md (chunk_key i))" using Suc.prems lt by simp
  have "collect_chunks md (Suc i) (Some (int n)) (acc @ the (md (chunk_key i))) =
        Inr ((acc @ the (md (chunk_key i))) @ concat (map (\<lambda>j. the (md (chunk_key j))) [Suc i..<n]))"
    using Suc.hyps(2) Suc.prems by (intro Suc.hyps(1)) auto
  with lt p show ?case
    by (simp add: collect_chunks.simps[of md i] upt_conv_Cons)
qed

lemma collect_chunks_missing:
  assumes "i \<le> k" "k < n" "\<not> present (md (chunk_key k))"
  shows "isl (collect_chunks md i (Some (int n)) acc)"
  using assms
proof (induction "k - i" arbitrary: i acc)
  case 0
  then show ?case by (simp add: collect_chunks.simps[of md i])
next
  case (Suc d)
  then have "isl (collect_chunks md (Suc i) (Some (int n)) (acc @ the (md (chunk_key i))))"
    by (intro Suc.hyps(1)) auto
  with Suc show ?case by (simp add: collect_chunks.simps[of md i])
qed

lemma checkout_metadata_count:
  "checkout_metadata leads url email co ts oid ''urlChunkCount'' =
     Some (decimal (length (url_chunks 0 (b64_encode url))))"
  by (simp add: checkout_metadata_def Let_def add_chunks_other chunk_key_not_count[symmetric])

lemma checkout_metadata_chunk:
  "i < length (url_chunks 0 (b64_encode url)) \<Longrightarrow>
   checkout_metadata leads url email co ts oid (chunk_key i) = Some (url_chunks 0 (b64_encode url) ! i)"
  by (simp add: checkout_metadata_def Let_def add_chunks_key)

lemma checkout_metadata_fields:
  "checkout_metadata leads url email co ts oid ''leads'' = Some (int_to_string leads)"
  "checkout_metadata leads url email co ts oid ''email'' = Some email"
  "checkout_metadata leads url email co ts oid ''apolloUrl'' = Some (truncatedUrl url)"
  "checkout_metadata leads url email co ts oid ''cleanOutput'' =
     Some (if truthy co then ''true'' else ''false'')"
  by (simp_all add: checkout_metadata_def Let_def add_chunks_other chunk_key_other[symmetric])

lemma reconstruct_checkout:
  "reconstruct_url (checkout_metadata leads url email co ts oid)
     (decimal (length (url_chunks 0 (b64_encode url)))) = Inr url"
proof -
  define chunks where "chunks = url_chunks 0 (b64_encode url)"
  define md where "md = checkout_metadata leads url email co ts oid"
  have get: "md (chunk_key j) = Some (chunks ! j)" if "j < length chunks" for j
    using that unfolding md_def chunks_def by (rule checkout_metadata_chunk)
  have pres: "present (md (chunk_key j))" if "j < length chunks" for j
    using that get[OF that] url_chunks_bounds[of "chunks ! j" 0 "b64_encode url"]
    by (simp add: present_def chunks_def)
  have "map (\<lambda>j. the (md (chunk_key j))) [0..<length chunks] = map (\<lambda>j. chunks ! j) [0..<length chunks]"
    by (rule map_cong) (simp_all add: get)
  also have "\<dots> = chunks" by (rule map_nth)
  finally have "concat (map (\<lambda>j. the (md (chunk_key j))) [0..<length chunks]) = b64_encode url"
    by (simp add: chunks_def concat_url_chunks)
  moreover have "collect_chunks md 0 (Some (int (length chunks))) [] =
                 Inr ([] @ concat (map (\<lambda>j. the (md (chunk_key j))) [0..<length chunks]))"
    by (rule collect_chunks_all) (rule pres)
  ultimately show ?thesis
    by (simp add: reconstruct_url_def parseInt_decimal b64_roundtrip md_def[symmetric] chunks_def[symmetric])
qed



section \<open>The steps of a run\<close>

subsection \<open>Paths\<close>

lemma paths_distinct:
  "processed_path s \<noteq> PROCESSED_DIR" "PROCESSED_DIR \<noteq> processed_path s"
  "staged_path s \<noteq> TEMP_DIR" "TEMP_DIR \<noteq> staged_path s"
  "staged_path s \<noteq> processed_path t" "processed_path t \<noteq> staged_path s"
  "staged_path s \<noteq> PROCESSED_DIR" "PROCESSED_DIR \<noteq> staged_path s"
  "processed_path s \<noteq> TEMP_DIR" "TEMP_DIR \<noteq> processed_path s"
  "TEMP_DIR \<noteq> PROCESSED_DIR" "PROCESSED_DIR \<noteq> TEMP_DIR"
  by (simp_all add: processed_path_def staged_path_def path_join_def TEMP_DIR_def PROCESSED_DIR_def)

lemma processed_path_inj: "processed_path s = processed_path t \<longleftrightarrow> s = t"
  by (simp add: processed_path_def path_join_def)

lemma staged_path_inj: "staged_path s = staged_path t \<longleftrightarrow> s = t"
  by (simp add: staged_path_def path_join_def)

subsection \<open>The ledger\<close>

lemma ensureProcessedDir_run:
  "files (ensureProcessedDir w) =
     (if files w PROCESSED_DIR = None then (files w)(PROCESSED_DIR \<mapsto> Dir) else files w)"
  "trace (ensureProcessedDir w) =
     trace w @ FsExists PROCESSED_DIR # (if files w PROCESSED_DIR = None then [FsMkdir PROCESSED_DIR] else [])"
  "errors (ensureProcessedDir w) = errors w"
  by (simp_all add: ensureProcessedDir_def existsSync_def mkdirSync_def emit_def)

lemma isSessionProcessed_run:
  "fst (isSessionProcessed s w) = in_ledger w s"
  "files (snd (isSessionProcessed s w)) = files (ensureProcessedDir w)"
  "trace (snd (isSessionProcessed s w)) = trace (ensureProcessedDir w) @ [FsExists (processed_path s)]"
  "errors (snd (isSessionProcessed s w)) = errors w"
  by (simp_all add: isSessionProcessed_def existsSync_def emit_def in_ledger_def
        ensureProcessedDir_run paths_distinct)

lemma markSessionProcessed_run:
  "trace (snd (markSessionProcessed x s w)) =
     trace (ensureProcessedDir w) @ [FsWrite (processed_path s)
        (JObj [(''sessionId'', JStr s), (''processedAt'', JStr (now_iso x)),
               (''timestamp'', JNum (now_ms x))])]"
  "errors (snd (markSessionProcessed x s w)) = errors w"
  "fst (markSessionProcessed x s w) = Inr () \<Longrightarrow> in_ledger (snd (markSessionProcessed x s w)) s"
  "files (snd (markSessionProcessed x s w)) p \<noteq> None \<longleftrightarrow>
     files (ensureProcessedDir w) p \<noteq> None \<or> (fst (markSessionProcessed x s w) = Inr () \<and> p = processed_path s)"
  "p \<noteq> processed_path s \<Longrightarrow>
     files (snd (markSessionProcessed x s w)) p = files (ensureProcessedDir w) p"
  by (auto simp: markSessionProcessed_def writeFileSync_def Let_def emit_def in_ledger_def
        ensureProcessedDir_run processed_path_def)

subsection \<open>The staging store\<close>

lemma retrieveApolloUrl_run:
  "files (snd (retrieveApolloUrl s w)) = files w"
  "trace (snd (retrieveApolloUrl s w)) =
     trace w @ [FsExists (staged_path s), FsExists (staged_path s)] @
       (if files w (staged_path s) \<noteq> None then [FsRead (staged_path s)]
        else FsExists TEMP_DIR # (if files w TEMP_DIR \<noteq> None then [FsReaddir TEMP_DIR] else []))"
  by (auto simp: retrieveApolloUrl_def existsSync_def emit_def read_json_def console_error_def
        Let_def split: prod.splits option.splits node.splits sum.splits)

lemma retrieveApolloUrl_miss:
  "files w (staged_path s) = None \<Longrightarrow> fst (retrieveApolloUrl s w) = JNull"
  "files w (staged_path s) = None \<Longrightarrow> errors (snd (retrieveApolloUrl s w)) = errors w"
  by (auto simp: retrieveApolloUrl_def existsSync_def emit_def Let_def split: prod.splits)

lemma retrieveApolloUrl_hit:
  "files w (staged_path s) = Some (File (Some d)) \<Longrightarrow> d \<noteq> JNull \<Longrightarrow> d \<noteq> JUndefined \<Longrightarrow>
   fst (retrieveApolloUrl s w) = d"
  by (cases d)
     (auto simp: retrieveApolloUrl_def existsSync_def emit_def read_json_def Let_def split: prod.splits)

lemma cleanupApolloUrl_run:
  "trace (cleanupApolloUrl s w) =
     trace w @ FsExists (staged_path s) # (if files w (staged_path s) \<noteq> None then [FsUnlink (staged_path s)] else [])"
  "p \<noteq> staged_path s \<Longrightarrow> files (cleanupApolloUrl s w) p = files w p"
  "files (cleanupApolloUrl s w) (staged_path s) =
     (case files w (staged_path s) of Some Dir \<Rightarrow> Some Dir | _ \<Rightarrow> None)"
  by (auto simp: cleanupApolloUrl_def existsSync_def emit_def unlinkSync_def console_error_def
        Let_def split: prod.splits option.splits node.splits sum.splits)

subsection \<open>The job and the notification\<close>

lemma triggerApolloScraper_run:
  "files (snd (triggerApolloScraper e x url n f m c w)) = files w"
  "trace (snd (triggerApolloScraper e x url n f m c w)) =
     trace w @ (case url of
                  JStr u \<Rightarrow> [ApifyRun (APOLLO_ACTOR_ID e) (APIFY_TOKEN e)
                     (JObj [(''url'', url), (''totalRecords'', num_json n), (''fileName'', JStr f),
                            (''email'', m), (''cleanOutput'', JBool c)])]
                | _ \<Rightarrow> [])"
  "isl (fst (triggerApolloScraper e x url n f m c w)) \<longleftrightarrow> \<not> (trigger_ok x \<and> (\<exists>u. url = JStr u))"
  by (auto simp: triggerApolloScraper_def emit_def console_error_def Let_def trigger_ok_def
        split: jsval.splits fetch_result.splits option.splits sum.splits)

lemma sendEmailWebhook_run:
  "files (sendEmailWebhook e x m n u f w) = files w"
  "trace (sendEmailWebhook e x m n u f w) =
     trace w @ (if present (EMAIL_WEBHOOK_URL e)
                then [EmailPost (the (EMAIL_WEBHOOK_URL e))
                        (JObj [(''email'', m), (''leadCount'', num_json n), (''apolloUrl'', u),
                               (''timestamp'', JStr (now_iso x)),
                               (''service'', JStr ''apollo-scraper''), (''fileName'', JStr f),
                               (''source'', JStr ''stripe-payment'')])]
                else [])"
  by (auto simp: sendEmailWebhook_def emit_def console_error_def Let_def split: fetch_result.splits)

subsection \<open>Fulfilment\<close>

lemma new_effects_append [simp]: "trace w' = trace w @ t \<Longrightarrow> new_effects w w' = t"
  by (simp add: new_effects_def)

lemma field_simps:
  "get_prop st k = Inr v \<Longrightarrow> field st k = v"
  "get_prop st k = Inl err \<Longrightarrow> field st k = JUndefined"
  by (simp_all add: field_def)

lemma get_prop_field: "st \<noteq> JNull \<Longrightarrow> st \<noteq> JUndefined \<Longrightarrow> get_prop st k = Inr (field st k)"
  by (cases st) (simp_all add: field_def)

lemma field_nullish [simp]: "field JNull k = JUndefined" "field JUndefined k = JUndefined"
  by (simp_all add: field_def)

lemma trigger_result:
  "fst (triggerApolloScraper e x url n f m c w) = Inr r \<Longrightarrow> trigger_ok x \<and> (\<exists>u. url = JStr u)"
  "trigger_ok x \<Longrightarrow> \<exists>r. fst (triggerApolloScraper e x (JStr u) n f m c w) = Inr r"
  "trigger_ok x \<Longrightarrow> snd (triggerApolloScraper e x (JStr u) n f m c w) =
     emit (ApifyRun (APOLLO_ACTOR_ID e) (APIFY_TOKEN e)
         (JObj [(''url'', JStr u), (''totalRecords'', num_json n), (''fileName'', JStr f),
                (''email'', m), (''cleanOutput'', JBool c)])) w"
  by (auto simp: triggerApolloScraper_def trigger_ok_def Let_def
        split: jsval.splits fetch_result.splits option.splits sum.splits if_splits)

lemma fulfil_nullish [simp]:
  "fulfil e x s JNull w = (Inl TypeError, w)" "fulfil e x s JUndefined w = (Inl TypeError, w)"
  by (simp_all add: fulfil_def)

lemma fulfil_unfold:
  "st \<noteq> JNull \<Longrightarrow> st \<noteq> JUndefined \<Longrightarrow>
   fulfil e x s st w =
     (case get_prop (field st ''apolloUrl'') ''length'' of
        Inl err \<Rightarrow> (Inl err, w)
      | Inr len \<Rightarrow>
          (let t = triggerApolloScraper e x (field st ''apolloUrl'') (parseInt_js (field st ''leads''))
                     (generateRandomFileName x) (field st ''email'')
                     (field st ''cleanOutput'' = JStr ''true'') w
           in case fst t of
                Inl err \<Rightarrow> (Inl err, snd t)
              | Inr runId \<Rightarrow>
                  markSessionProcessed x s
                    (cleanupApolloUrl s
                      (sendEmailWebhook e x (field st ''email'') (parseInt_js (field st ''leads''))
                         (field st ''apolloUrl'') (generateRandomFileName x) (snd t)))))"
  by (simp add: fulfil_def get_prop_field Let_def case_prod_beta split: sum.splits)

lemma fulfil_ok:
  assumes "trigger_ok x" "field st ''apolloUrl'' = JStr u"
  shows "fulfil e x s st w =
     markSessionProcessed x s
       (cleanupApolloUrl s
         (sendEmailWebhook e x (field st ''email'') (parseInt_js (field st ''leads'')) (JStr u)
            (generateRandomFileName x)
            (emit (ApifyRun (APOLLO_ACTOR_ID e) (APIFY_TOKEN e) (job_payload x st)) w)))"
proof -
  have ns: "st \<noteq> JNull" "st \<noteq> JUndefined" using assms(2) by auto
  obtain r where "fst (triggerApolloScraper e x (JStr u) (parseInt_js (field st ''leads''))
       (generateRandomFileName x) (field st ''email'') (field st ''cleanOutput'' = JStr ''true'') w) = Inr r"
    using trigger_result(2)[OF assms(1)] by blast
  then show ?thesis
    by (simp add: fulfil_unfold[OF ns] assms(2) Let_def trigger_result(3)[OF assms(1)] job_payload_def)
qed

lemma fulfil_fail:
  assumes "\<not> (trigger_ok x \<and> (\<exists>u. field st ''apolloUrl'' = JStr u))"
  shows "files (snd (fulfil e x s st w)) = files w"
    and "trace (snd (fulfil e x s st w)) =
           trace w @ (case field st ''apolloUrl'' of
                        JStr u \<Rightarrow> [ApifyRun (APOLLO_ACTOR_ID e) (APIFY_TOKEN e) (job_payload x st)]
                      | _ \<Rightarrow> [])"
    and "isl (fst (fulfil e x s st w))"
proof -
  consider "st = JNull \<or> st = JUndefined" | "st \<noteq> JNull" "st \<noteq> JUndefined" by blast
  then have "files (snd (fulfil e x s st w)) = files w
    \<and> trace (snd (fulfil e x s st w)) =
           trace w @ (case field st ''apolloUrl'' of
                        JStr u \<Rightarrow> [ApifyRun (APOLLO_ACTOR_ID e) (APIFY_TOKEN e) (job_payload x st)]
                      | _ \<Rightarrow> [])
    \<and> isl (fst (fulfil e x s st w))"
  proof cases
    case 1
    then show ?thesis by auto
  next
    case 2
    show ?thesis
      using assms
      by (cases "field st ''apolloUrl''")
         (auto simp: fulfil_unfold[OF 2] Let_def triggerApolloScraper_run job_payload_def
               split: sum.splits dest: trigger_result(1))
  qed
  then show "files (snd (fulfil e x s st w)) = files w"
    and "trace (snd (fulfil e x s st w)) =
           trace w @ (case field st ''apolloUrl'' of
                        JStr u \<Rightarrow> [ApifyRun (APOLLO_ACTOR_ID e) (APIFY_TOKEN e) (job_payload x st)]
                      | _ \<Rightarrow> [])"
    and "isl (fst (fulfil e x s st w))" by blast+
qed

subsection \<open>The orchestrator\<close>

lemma quiet_simps [simp]:
  "quiet []" "quiet (FsExists p # t) = quiet t" "quiet (FsMkdir p # t) = quiet t"
  "quiet (FsRead p # t) = quiet t" "quiet (FsReaddir p # t) = quiet t"
  "quiet (t @ t') = (quiet t \<and> quiet t')"
  by (simp_all add: quiet_def)

lemma quiet_filter:
  "quiet t \<Longrightarrow> filter is_job t = [] \<and> filter is_notification t = [] \<and> filter is_write t = []"
  by (induction t) (auto simp: quiet_def)

lemma caught_run [simp]:
  "files (caught r) = files (snd r)" "trace (caught r) = trace (snd r)"
  by (cases r; cases "fst r"; simp add: caught_def console_error_def)+

lemma pending_order_frame:
  "files w' (staged_path s) = files w (staged_path s) \<Longrightarrow>
   fst (retrieveApolloUrl s w') = fst (retrieveApolloUrl s w)"
  by (auto simp: retrieveApolloUrl_def existsSync_def emit_def read_json_def console_error_def
        Let_def split: prod.splits option.splits node.splits sum.splits)

lemma lookup_run:
  "files (snd (retrieveApolloUrl s (snd (isSessionProcessed s w)))) = files (ensureProcessedDir w)"
  "\<exists>pre. quiet pre \<and> trace (snd (retrieveApolloUrl s (snd (isSessionProcessed s w)))) = trace w @ pre"
  "fst (retrieveApolloUrl s (snd (isSessionProcessed s w))) = pending_order w s"
proof -
  show "files (snd (retrieveApolloUrl s (snd (isSessionProcessed s w)))) = files (ensureProcessedDir w)"
    by (simp add: retrieveApolloUrl_run isSessionProcessed_run)
  show "\<exists>pre. quiet pre \<and> trace (snd (retrieveApolloUrl s (snd (isSessionProcessed s w)))) = trace w @ pre"
    by (simp add: retrieveApolloUrl_run isSessionProcessed_run ensureProcessedDir_run)
  show "fst (retrieveApolloUrl s (snd (isSessionProcessed s w))) = pending_order w s"
    unfolding pending_order_def
    by (rule pending_order_frame)
       (simp add: isSessionProcessed_run ensureProcessedDir_run paths_distinct)
qed

lemma staged_guard:
  assumes "truthy st"
  shows "(case get_prop st ''apolloUrl'' of
            Inl err \<Rightarrow> caught (Inl err, w)
          | Inr u \<Rightarrow>
              (case get_prop u ''length'' of
                 Inl err \<Rightarrow> caught (Inl err, w)
               | Inr len \<Rightarrow> caught (fulfil e x s st w))) = caught (fulfil e x s st w)"
proof -
  have ns: "st \<noteq> JNull" "st \<noteq> JUndefined" using assms by auto
  show ?thesis
    by (cases "get_prop (field st ''apolloUrl'') ''length''")
       (simp_all add: get_prop_field[OF ns] fulfil_unfold[OF ns] caught_def)
qed

lemma hSP_unfold:
  "handleSuccessfulPayment e x s w =
     (if in_ledger w (sid s) then snd (isSessionProcessed (sid s) w)
      else if truthy (pending_order w (sid s)) then
        caught (fulfil e x (sid s) (pending_order w (sid s))
                  (snd (retrieveApolloUrl (sid s) (snd (isSessionProcessed (sid s) w)))))
      else if \<not> present (metadata s ''leads'') \<or> \<not> present (metadata s ''email'') then
        console_error ''Missing required metadata in session:''
          (console_error ''No stored Apollo URL found for session:''
            (snd (retrieveApolloUrl (sid s) (snd (isSessionProcessed (sid s) w)))))
      else
        caught (fulfil e x (sid s) (metadata_order (metadata s))
                  (console_error ''No stored Apollo URL found for session:''
                    (snd (retrieveApolloUrl (sid s) (snd (isSessionProcessed (sid s) w)))))))"
  by (simp add: handleSuccessfulPayment_def Let_def case_prod_beta isSessionProcessed_run(1)
        lookup_run(3) staged_guard cong: sum.case_cong)

lemma hSP_processed:
  "in_ledger w (sid s) \<Longrightarrow> handleSuccessfulPayment e x s w = snd (isSessionProcessed (sid s) w)"
  by (simp add: hSP_unfold)

lemma hSP_fulfil:
  assumes "\<not> in_ledger w (sid s)"
    and "truthy (pending_order w (sid s)) \<or> (present (metadata s ''leads'') \<and> present (metadata s ''email''))"
  shows "\<exists>pre w'. quiet pre \<and> trace w' = trace w @ pre \<and> files w' = files (ensureProcessedDir w)
     \<and> files (handleSuccessfulPayment e x s w) = files (snd (fulfil e x (sid s) (recovered_order w s) w'))
     \<and> trace (handleSuccessfulPayment e x s w) = trace (snd (fulfil e x (sid s) (recovered_order w s) w'))"
proof -
  define w2 where "w2 = snd (retrieveApolloUrl (sid s) (snd (isSessionProcessed (sid s) w)))"
  obtain pre where pre: "quiet pre" "trace w2 = trace w @ pre"
    using lookup_run(2)[of "sid s" w] unfolding w2_def by blast
  have f2: "files w2 = files (ensureProcessedDir w)"
    unfolding w2_def by (rule lookup_run)
  show ?thesis
  proof (cases "truthy (pending_order w (sid s))")
    case True
    then have "handleSuccessfulPayment e x s w = caught (fulfil e x (sid s) (recovered_order w s) w2)"
      using assms(1) by (simp add: hSP_unfold recovered_order_def w2_def)
    then have "files (handleSuccessfulPayment e x s w) = files (snd (fulfil e x (sid s) (recovered_order w s) w2))"
      "trace (handleSuccessfulPayment e x s w) = trace (snd (fulfil e x (sid s) (recovered_order w s) w2))"
      by simp_all
    with pre f2 show ?thesis by blast
  next
    case False
    define w3 where "w3 = console_error ''No stored Apollo URL found for session:'' w2"
    from False assms have "handleSuccessfulPayment e x s w = caught (fulfil e x (sid s) (recovered_order w s) w3)"
      by (simp add: hSP_unfold recovered_order_def w2_def w3_def)
    then have "files (handleSuccessfulPayment e x s w) = files (snd (fulfil e x (sid s) (recovered_order w s) w3))"
      "trace (handleSuccessfulPayment e x s w) = trace (snd (fulfil e x (sid s) (recovered_order w s) w3))"
      by simp_all
    moreover have "trace w3 = trace w @ pre" "files w3 = files (ensureProcessedDir w)"
      using pre f2 by (simp_all add: w3_def console_error_def)
    ultimately show ?thesis using pre(1) by blast
  qed
qed

lemma hSP_quiet:
  assumes "in_ledger w (sid s) \<or>
     (\<not> truthy (pending_order w (sid s)) \<and>
      (\<not> present (metadata s ''leads'') \<or> \<not> present (metadata s ''email'')))"
  shows "\<exists>pre. quiet pre \<and> trace (handleSuccessfulPayment e x s w) = trace w @ pre"
    and "files (handleSuccessfulPayment e x s w) = files (ensureProcessedDir w)"
proof -
  have "(\<exists>pre. quiet pre \<and> trace (handleSuccessfulPayment e x s w) = trace w @ pre)
     \<and> files (handleSuccessfulPayment e x s w) = files (ensureProcessedDir w)"
  proof (cases "in_ledger w (sid s)")
    case True
    then show ?thesis
      by (simp add: hSP_processed isSessionProcessed_run ensureProcessedDir_run)
  next
    case False
    with assms have "handleSuccessfulPayment e x s w =
     console_error ''Missing required metadata in session:''
       (console_error ''No stored Apollo URL found for session:''
         (snd (retrieveApolloUrl (sid s) (snd (isSessionProcessed (sid s) w)))))"
      by (auto simp: hSP_unfold)
    then show ?thesis
      using lookup_run(1,2)[of "sid s" w] by (simp add: console_error_def)
  qed
  then show "\<exists>pre. quiet pre \<and> trace (handleSuccessfulPayment e x s w) = trace w @ pre"
    and "files (handleSuccessfulPayment e x s w) = files (ensureProcessedDir w)" by blast+
qed

lemma handler_completed:
  assumes "req_method req = ''POST''" "verified_event e x req = Inr ev"
    and "ev_type ev = ''checkout.session.completed''"
  shows "handler e x req w =
     (\<lparr>status = 200, headers = [], body = Some (JObj [(''received'', JBool True)])\<rparr>,
      handleSuccessfulPayment e x (ev_object ev) w)"
  using assms by (simp add: handler_def)

lemma ensureProcessedDir_keeps: "files w p \<noteq> None \<Longrightarrow> files (ensureProcessedDir w) p \<noteq> None"
  by (simp add: ensureProcessedDir_run)

lemma fulfil_ok_run:
  assumes "trigger_ok x" "field st ''apolloUrl'' = JStr u"
  shows "trace (snd (fulfil e x s st w)) =
      trace w @ ApifyRun (APOLLO_ACTOR_ID e) (APIFY_TOKEN e) (job_payload x st) #
        (if present (EMAIL_WEBHOOK_URL e)
         then [EmailPost (the (EMAIL_WEBHOOK_URL e))
                 (JObj [(''email'', field st ''email''),
                        (''leadCount'', num_json (parseInt_js (field st ''leads''))),
                        (''apolloUrl'', JStr u), (''timestamp'', JStr (now_iso x)),
                        (''service'', JStr ''apollo-scraper''),
                        (''fileName'', JStr (generateRandomFileName x)),
                        (''source'', JStr ''stripe-payment'')])]
         else []) @
        FsExists (staged_path s) # (if files w (staged_path s) \<noteq> None then [FsUnlink (staged_path s)] else []) @
        FsExists PROCESSED_DIR # (if files w PROCESSED_DIR = None then [FsMkdir PROCESSED_DIR] else []) @
        [FsWrite (processed_path s)
           (JObj [(''sessionId'', JStr s), (''processedAt'', JStr (now_iso x)),
                  (''timestamp'', JNum (now_ms x))])]"
    and "files w p \<noteq> None \<Longrightarrow> p \<noteq> staged_path s \<Longrightarrow> files (snd (fulfil e x s st w)) p \<noteq> None"
proof -
  show "trace (snd (fulfil e x s st w)) =
      trace w @ ApifyRun (APOLLO_ACTOR_ID e) (APIFY_TOKEN e) (job_payload x st) #
        (if present (EMAIL_WEBHOOK_URL e)
         then [EmailPost (the (EMAIL_WEBHOOK_URL e))
                 (JObj [(''email'', field st ''email''),
                        (''leadCount'', num_json (parseInt_js (field st ''leads''))),
                        (''apolloUrl'', JStr u), (''timestamp'', JStr (now_iso x)),
                        (''service'', JStr ''apollo-scraper''),
                        (''fileName'', JStr (generateRandomFileName x)),
                        (''source'', JStr ''stripe-payment'')])]
         else []) @
        FsExists (staged_path s) # (if files w (staged_path s) \<noteq> None then [FsUnlink (staged_path s)] else []) @
        FsExists PROCESSED_DIR # (if files w PROCESSED_DIR = None then [FsMkdir PROCESSED_DIR] else []) @
        [FsWrite (processed_path s)
           (JObj [(''sessionId'', JStr s), (''processedAt'', JStr (now_iso x)),
                  (''timestamp'', JNum (now_ms x))])]"
    by (simp add: fulfil_ok[OF assms] markSessionProcessed_run ensureProcessedDir_run
        cleanupApolloUrl_run sendEmailWebhook_run emit_def paths_distinct)
  assume p: "files w p \<noteq> None" "p \<noteq> staged_path s"
  define w3 where "w3 = cleanupApolloUrl s
         (sendEmailWebhook e x (field st ''email'') (parseInt_js (field st ''leads'')) (JStr u)
            (generateRandomFileName x)
            (emit (ApifyRun (APOLLO_ACTOR_ID e) (APIFY_TOKEN e) (job_payload x st)) w))"
  have "files w3 p = files w p"
    using p(2) by (simp add: w3_def cleanupApolloUrl_run sendEmailWebhook_run emit_def)
  with p(1) have "files (ensureProcessedDir w3) p \<noteq> None"
    using ensureProcessedDir_keeps by metis
  then have "files (snd (markSessionProcessed x s w3)) p \<noteq> None"
    using markSessionProcessed_run(4) by blast
  then show "files (snd (fulfil e x s st w)) p \<noteq> None"
    unfolding fulfil_ok[OF assms] w3_def .
qed

lemma fulfil_extends: "\<exists>t. trace (snd (fulfil e x s st w)) = trace w @ t"
proof (cases "trigger_ok x \<and> (\<exists>u. field st ''apolloUrl'' = JStr u)")
  case True
  then show ?thesis using fulfil_ok_run(1) by blast
next
  case False
  then show ?thesis using fulfil_fail(2) by blast
qed

lemma fulfil_keeps:
  "files w p \<noteq> None \<Longrightarrow> p \<noteq> staged_path s \<Longrightarrow> files (snd (fulfil e x s st w)) p \<noteq> None"
proof (cases "trigger_ok x \<and> (\<exists>u. field st ''apolloUrl'' = JStr u)")
  case True
  then show "files w p \<noteq> None \<Longrightarrow> p \<noteq> staged_path s \<Longrightarrow> ?thesis"
    using fulfil_ok_run(2) by blast
next
  case False
  then show "files w p \<noteq> None \<Longrightarrow> ?thesis" using fulfil_fail(1) by metis
qed

lemma hSP_cases:
  obtains (quiet) pre where "quiet pre" "trace (handleSuccessfulPayment e x s w) = trace w @ pre"
      "files (handleSuccessfulPayment e x s w) = files (ensureProcessedDir w)"
      "in_ledger w (sid s) \<or> \<not> truthy (pending_order w (sid s))"
  | (fulfil) pre w' where "quiet pre" "trace w' = trace w @ pre" "files w' = files (ensureProcessedDir w)"
      "files (handleSuccessfulPayment e x s w) = files (snd (fulfil e x (sid s) (recovered_order w s) w'))"
      "trace (handleSuccessfulPayment e x s w) = trace (snd (fulfil e x (sid s) (recovered_order w s) w'))"
      "\<not> in_ledger w (sid s)"
proof (cases "in_ledger w (sid s) \<or>
     (\<not> truthy (pending_order w (sid s)) \<and>
      (\<not> present (metadata s ''leads'') \<or> \<not> present (metadata s ''email'')))")
  case True
  from hSP_quiet[OF True] that(1) True show ?thesis by blast
next
  case False
  then have "\<not> in_ledger w (sid s)"
    "truthy (pending_order w (sid s)) \<or> (present (metadata s ''leads'') \<and> present (metadata s ''email''))"
    by blast+
  from hSP_fulfil[OF this] that(2) this(1) show ?thesis by blast
qed

lemma hSP_trace_grows: "length (trace w) < length (trace (handleSuccessfulPayment e x s w))"
proof -
  define w2 where "w2 = snd (retrieveApolloUrl (sid s) (snd (isSessionProcessed (sid s) w)))"
  have lookup: "length (trace w) < length (trace w2)"
    by (simp add: w2_def retrieveApolloUrl_run isSessionProcessed_run ensureProcessedDir_run)
  have ext: "length (trace v) \<le> length (trace (snd (fulfil e x (sid s) st v)))" for st v
    using fulfil_extends[of e x "sid s" st v] by auto
  consider (a) "handleSuccessfulPayment e x s w = snd (isSessionProcessed (sid s) w)"
    | (b) st where "handleSuccessfulPayment e x s w = caught (fulfil e x (sid s) st w2)"
    | (c) "handleSuccessfulPayment e x s w =
        console_error ''Missing required metadata in session:''
          (console_error ''No stored Apollo URL found for session:'' w2)"
    | (d) st where "handleSuccessfulPayment e x s w =
        caught (fulfil e x (sid s) st (console_error ''No stored Apollo URL found for session:'' w2))"
    using hSP_unfold[of e x s w] unfolding w2_def by (auto split: if_splits)
  then show ?thesis
  proof cases
    case a
    then show ?thesis by (simp add: isSessionProcessed_run ensureProcessedDir_run)
  next
    case b
    then show ?thesis using lookup ext[of w2 st] by simp
  next
    case c
    then show ?thesis using lookup by (simp add: console_error_def)
  next
    case d
    have "trace (console_error ''No stored Apollo URL found for session:'' w2) = trace w2"
      by (simp add: console_error_def)
    then show ?thesis
      using lookup ext[of "console_error ''No stored Apollo URL found for session:'' w2" st] d
      by simp
  qed
qed

lemma hSP_keeps_ledger:
  "in_ledger w t \<Longrightarrow> in_ledger (handleSuccessfulPayment e x s w) t"
proof (cases rule: hSP_cases[of e x s w])
  case (quiet pre)
  assume "in_ledger w t"
  then show ?thesis by (simp add: in_ledger_def quiet(3) ensureProcessedDir_keeps)
next
  case (fulfil pre w')
  assume "in_ledger w t"
  then have "files w' (processed_path t) \<noteq> None"
    by (simp add: in_ledger_def fulfil(3) ensureProcessedDir_keeps)
  then show ?thesis
    unfolding in_ledger_def fulfil(4) by (rule fulfil_keeps) (simp add: paths_distinct)
qed

lemma in_ledger_console_error [simp]: "in_ledger (console_error m w) t = in_ledger w t"
  by (simp add: in_ledger_def console_error_def)

lemma handler_keeps_ledger: "in_ledger w t \<Longrightarrow> in_ledger (snd (handler e x req w)) t"
  by (auto simp: handler_def hSP_keeps_ledger split: sum.splits)

lemma serve_keeps_ledger: "in_ledger w t \<Longrightarrow> in_ledger (serve e reqs w) t"
  by (induction reqs arbitrary: w) (auto simp: handler_keeps_ledger)

lemma demo_verified [simp]:
  "verified_event e (demo_ext ev r) signed_post = Inr ev"
  "req_method signed_post = ''POST''"
  "ev_type (completed_event md) = ''checkout.session.completed''"
  "sid (ev_object (completed_event md)) = ''cs_test_1''"
  "metadata (ev_object (completed_event md)) = md"
  by (simp_all add: verified_event_def demo_ext_def signed_post_def completed_event_def)

lemma demo_mark: "fst (markSessionProcessed x s empty_disk) = Inr ()"
  by (simp add: markSessionProcessed_def writeFileSync_def ensureProcessedDir_def existsSync_def
        mkdirSync_def emit_def Let_def empty_disk_def PROCESSED_DIR_def path_join_def)

subsection \<open>The job requests of a run\<close>

lemma new_effects_trans:
  "trace w' = trace w @ pre \<Longrightarrow> trace w'' = trace w' @ t \<Longrightarrow> new_effects w w'' = pre @ t"
  by (simp add: new_effects_def)

lemma fulfil_jobs:
  "filter is_job (new_effects w (snd (fulfil e x s st w))) =
     (case field st ''apolloUrl'' of
        JStr u \<Rightarrow> [ApifyRun (APOLLO_ACTOR_ID e) (APIFY_TOKEN e) (job_payload x st)]
      | _ \<Rightarrow> [])"
proof (cases "trigger_ok x \<and> (\<exists>u. field st ''apolloUrl'' = JStr u)")
  case True
  then obtain u where u: "field st ''apolloUrl'' = JStr u" and ok: "trigger_ok x" by blast
  show ?thesis
    by (simp add: fulfil_ok_run(1)[OF ok u] u)
next
  case False
  show ?thesis
    by (simp add: fulfil_fail(2)[OF False] split: jsval.splits)
qed

lemma hSP_jobs:
  assumes "\<not> in_ledger w (sid s)"
    and "truthy (pending_order w (sid s)) \<or> (present (metadata s ''leads'') \<and> present (metadata s ''email''))"
  shows "filter is_job (new_effects w (handleSuccessfulPayment e x s w)) =
     (case field (recovered_order w s) ''apolloUrl'' of
        JStr u \<Rightarrow> [ApifyRun (APOLLO_ACTOR_ID e) (APIFY_TOKEN e) (job_payload x (recovered_order w s))]
      | _ \<Rightarrow> [])"
proof -
  obtain pre w' where p: "quiet pre" "trace w' = trace w @ pre"
     "trace (handleSuccessfulPayment e x s w) = trace (snd (fulfil e x (sid s) (recovered_order w s) w'))"
    using hSP_fulfil[OF assms] by blast
  obtain t where t: "trace (snd (fulfil e x (sid s) (recovered_order w s) w')) = trace w' @ t"
    using fulfil_extends by blast
  have "new_effects w (handleSuccessfulPayment e x s w) = pre @ t"
    using p(2) t unfolding p(3)[symmetric] by (rule new_effects_trans)
  moreover have "new_effects w' (snd (fulfil e x (sid s) (recovered_order w s) w')) = t"
    using t by simp
  ultimately show ?thesis
    using fulfil_jobs[of w' e x "sid s" "recovered_order w s"] quiet_filter[OF p(1)] by simp
qed

lemma collect_chunks_int:
  assumes "\<And>j. j < nat k \<Longrightarrow> present (md (chunk_key j))"
  shows "collect_chunks md 0 (Some k) [] =
         Inr (concat (map (\<lambda>j. the (md (chunk_key j))) [0..<nat k]))"
proof (cases "0 \<le> k")
  case True
  then have "k = int (nat k)" by simp
  then show ?thesis
    using collect_chunks_all[of 0 "nat k" md "[]"] assms by simp
next
  case False
  then show ?thesis by (simp add: collect_chunks.simps[of md 0])
qed

lemma parseInt_Nil: "parseInt [] = None"
  by (simp add: parseInt_def)

lemma fullApolloUrl_complete:
  assumes "md ''urlChunkCount'' = Some c" "parseInt c = Some k"
    and "\<And>i. i < nat k \<Longrightarrow> present (md (chunk_key i))"
  shows "fullApolloUrl md = JStr (b64_decode (concat (map (\<lambda>i. the (md (chunk_key i))) [0..<nat k])))"
proof -
  have "c \<noteq> []" using assms(2) parseInt_Nil by auto
  then show ?thesis
    using collect_chunks_int[of k md, OF assms(3)]
    by (simp add: fullApolloUrl_def present_def assms(1,2) reconstruct_url_def)
qed

lemma fullApolloUrl_checkout: "fullApolloUrl (checkout_metadata leads url email co ts oid) = JStr url"
  by (simp add: fullApolloUrl_def checkout_metadata_count reconstruct_checkout present_def decimal_ne)

lemma field_metadata_order:
  "field (metadata_order md) ''apolloUrl'' = fullApolloUrl md"
  "field (metadata_order md) ''email'' = opt_str (md ''email'')"
  "field (metadata_order md) ''leads'' = opt_str (md ''leads'')"
  "field (metadata_order md) ''cleanOutput'' = opt_str (md ''cleanOutput'')"
  by (simp_all add: field_def metadata_order_def)

lemma job_payload_fields:
  "get_prop (job_payload x st) ''url'' = Inr (field st ''apolloUrl'')"
  "get_prop (job_payload x st) ''cleanOutput'' = Inr (JBool (field st ''cleanOutput'' = JStr ''true''))"
  "get_prop (job_payload x st) ''email'' = Inr (field st ''email'')"
  "get_prop (job_payload x st) ''totalRecords'' = Inr (num_json (parseInt_js (field st ''leads'')))"
  by (simp_all add: job_payload_def)

lemma demo_disk [simp]:
  "\<not> in_ledger empty_disk s" "pending_order empty_disk s = JNull"
  by (simp_all add: in_ledger_def pending_order_def empty_disk_def retrieveApolloUrl_miss)

lemma int_to_string_ne: "int_to_string i \<noteq> []"
  by (simp add: int_to_string_def decimal_ne)

lemma checkout_metadata_complete:
  fixes leads url email co ts oid
  defines "md \<equiv> checkout_metadata leads url email co ts oid"
  shows "present (md ''leads'')" "email \<noteq> [] \<Longrightarrow> present (md ''email'')"
    "md ''urlChunkCount'' = Some (decimal (length (url_chunks 0 (b64_encode url))))"
    "\<forall>i < nat (int (length (url_chunks 0 (b64_encode url)))). present (md (chunk_key i))"
proof -
  show "present (md ''leads'')" "email \<noteq> [] \<Longrightarrow> present (md ''email'')"
    by (simp_all add: md_def checkout_metadata_fields present_def int_to_string_ne)
  show "md ''urlChunkCount'' = Some (decimal (length (url_chunks 0 (b64_encode url))))"
    unfolding md_def by (rule checkout_metadata_count)
  show "\<forall>i < nat (int (length (url_chunks 0 (b64_encode url)))). present (md (chunk_key i))"
  proof (intro allI impI)
    fix i assume "i < nat (int (length (url_chunks 0 (b64_encode url))))"
    then have i: "i < length (url_chunks 0 (b64_encode url))" by simp
    then have "url_chunks 0 (b64_encode url) ! i \<in> set (url_chunks 0 (b64_encode url))" by simp
    then have "url_chunks 0 (b64_encode url) ! i \<noteq> []" using url_chunks_bounds by blast
    then show "present (md (chunk_key i))"
      by (simp add: md_def checkout_metadata_chunk[OF i] present_def)
  qed
qed

lemma fallback_end_to_end:
  assumes "req_method req = ''POST''" and "verified_event e x req = Inr ev"
    and "ev_type ev = ''checkout.session.completed''"
    and "\<not> in_ledger w (sid (ev_object ev))"
    and "\<not> truthy (pending_order w (sid (ev_object ev)))"
    and "metadata (ev_object ev) = checkout_metadata leads url email co ts oid" and "email \<noteq> []"
  shows "filter is_job (new_effects w (snd (handler e x req w))) =
       [ApifyRun (APOLLO_ACTOR_ID e) (APIFY_TOKEN e)
          (JObj [(''url'', JStr url), (''totalRecords'', num_json (parseInt (int_to_string leads))),
                 (''fileName'', JStr (generateRandomFileName x)), (''email'', JStr email),
                 (''cleanOutput'', JBool (truthy co))])]"
proof -
  define s where "s = ev_object ev"
  have md: "metadata s = checkout_metadata leads url email co ts oid" using assms(6) by (simp add: s_def)
  have r: "recovered_order w s = metadata_order (metadata s)"
    using assms(5) by (simp add: recovered_order_def s_def)
  have p: "present (metadata s ''leads'')" "present (metadata s ''email'')"
    using checkout_metadata_complete(1,2)[where leads = leads and url = url and email = email
        and co = co and ts = ts and oid = oid] assms(7) by (simp_all add: md)
  have "filter is_job (new_effects w (handleSuccessfulPayment e x s w)) =
      [ApifyRun (APOLLO_ACTOR_ID e) (APIFY_TOKEN e) (job_payload x (metadata_order (metadata s)))]"
    using assms(4) p unfolding s_def[symmetric]
    by (subst hSP_jobs) (simp_all add: r field_metadata_order md fullApolloUrl_checkout)
  moreover have "job_payload x (metadata_order (metadata s)) =
      JObj [(''url'', JStr url), (''totalRecords'', num_json (parseInt (int_to_string leads))),
                 (''fileName'', JStr (generateRandomFileName x)), (''email'', JStr email),
                 (''cleanOutput'', JBool (truthy co))]"
    by (simp add: job_payload_def field_metadata_order md fullApolloUrl_checkout
          checkout_metadata_fields opt_str_def parseInt_js_def)
  ultimately show ?thesis
    using assms(1-3) by (simp add: handler_completed s_def)
qed

lemma quiet_no_write: "quiet pre \<Longrightarrow> FsWrite p d \<notin> set pre"
  by (auto simp: quiet_def list_all_iff)

lemma in_ledger_cong: "files w' = files w \<Longrightarrow> in_ledger w' s = in_ledger w s"
  by (simp add: in_ledger_def)

lemma ensureProcessedDir_frame:
  "in_ledger (ensureProcessedDir w) s = in_ledger w s"
  "files (ensureProcessedDir w) (staged_path s) = files w (staged_path s)"
  by (simp_all add: in_ledger_def ensureProcessedDir_run paths_distinct)

lemma pending_order_cong:
  "files w' = files (ensureProcessedDir w) \<Longrightarrow> pending_order w' s = pending_order w s"
  unfolding pending_order_def
  by (rule pending_order_frame) (simp add: ensureProcessedDir_frame)

lemma storeApolloUrl_run:
  assumes "files w TEMP_DIR = None \<or> files w TEMP_DIR = Some Dir" "files w (staged_path s) \<noteq> Some Dir"
  shows "files (snd (storeApolloUrl s u m l c ts w)) (staged_path s) =
           Some (File (Some (JObj [(''apolloUrl'', JStr u), (''email'', JStr m), (''leads'', JNum l),
                                   (''cleanOutput'', c), (''timestamp'', JStr ts)])))"
    and "p \<noteq> staged_path s \<Longrightarrow> p \<noteq> TEMP_DIR \<Longrightarrow> files (snd (storeApolloUrl s u m l c ts w)) p = files w p"
  using assms
  by (auto simp: storeApolloUrl_def ensureTempDir_def existsSync_def mkdirSync_def emit_def
        writeFileSync_def Let_def staged_path_def[symmetric] paths_distinct)

lemma staged_order_disk:
  fixes s u m l c ts
  defines "w \<equiv> snd (storeApolloUrl s u m l c ts empty_disk)"
  shows "pending_order w s = JObj [(''apolloUrl'', JStr u), (''email'', JStr m), (''leads'', JNum l),
                                   (''cleanOutput'', c), (''timestamp'', JStr ts)]"
    and "\<not> in_ledger w t"
proof -
  have e: "files empty_disk TEMP_DIR = None \<or> files empty_disk TEMP_DIR = Some Dir"
    "files empty_disk (staged_path s) \<noteq> Some Dir"
    by (simp_all add: empty_disk_def)
  show "pending_order w s = JObj [(''apolloUrl'', JStr u), (''email'', JStr m), (''leads'', JNum l),
                                   (''cleanOutput'', c), (''timestamp'', JStr ts)]"
    unfolding pending_order_def w_def
    by (rule retrieveApolloUrl_hit) (simp_all add: storeApolloUrl_run(1)[OF e])
  have "files w (processed_path t) = files empty_disk (processed_path t)"
    unfolding w_def by (rule storeApolloUrl_run(2)[OF e]) (simp_all add: paths_distinct)
  then show "\<not> in_ledger w t"
    by (simp add: in_ledger_def empty_disk_def)
qed

lemma staged_flag:
  assumes "truthy (pending_order w (sid s))" "field (pending_order w (sid s)) ''cleanOutput'' = JBool b"
  shows "get_prop (job_payload x (recovered_order w s)) ''cleanOutput'' = Inr (JBool False)"
  using assms by (simp add: job_payload_fields recovered_order_def)

lemma demo_failed [simp]: "\<not> trigger_ok (demo_ext ev (HttpResponse 500 None))"
  by (simp add: trigger_ok_def demo_ext_def response_ok_def)

lemma demo_started [simp]: "trigger_ok (demo_ext ev run_started)"
  by (simp add: trigger_ok_def demo_ext_def response_ok_def run_started_def run_id_def)

subsection \<open>A fulfilment that succeeds\<close>

lemma mark_succeeds:
  assumes "files w PROCESSED_DIR = None \<or> files w PROCESSED_DIR = Some Dir"
    and "files w (processed_path s) \<noteq> Some Dir"
  shows "fst (markSessionProcessed x s w) = Inr ()"
  using assms
  by (auto simp: markSessionProcessed_def writeFileSync_def Let_def ensureProcessedDir_run
        processed_path_def[symmetric] paths_distinct)

lemma fulfil_ok_finalises:
  assumes "trigger_ok x" "field st ''apolloUrl'' = JStr u"
    and "files w PROCESSED_DIR = None \<or> files w PROCESSED_DIR = Some Dir"
    and "files w (processed_path s) \<noteq> Some Dir"
  shows "in_ledger (snd (fulfil e x s st w)) s"
    and "files w (staged_path s) \<noteq> Some Dir \<Longrightarrow> files (snd (fulfil e x s st w)) (staged_path s) = None"
proof -
  define w3 where "w3 = cleanupApolloUrl s
         (sendEmailWebhook e x (field st ''email'') (parseInt_js (field st ''leads'')) (JStr u)
            (generateRandomFileName x)
            (emit (ApifyRun (APOLLO_ACTOR_ID e) (APIFY_TOKEN e) (job_payload x st)) w))"
  have f: "fulfil e x s st w = markSessionProcessed x s w3"
    by (simp add: fulfil_ok[OF assms(1,2)] w3_def)
  have same: "files w3 p = files w p" if "p \<noteq> staged_path s" for p
    using that by (simp add: w3_def cleanupApolloUrl_run sendEmailWebhook_run emit_def)
  have "fst (markSessionProcessed x s w3) = Inr ()"
    using assms(3,4) by (intro mark_succeeds) (simp_all add: same paths_distinct)
  then show "in_ledger (snd (fulfil e x s st w)) s"
    unfolding f by (rule markSessionProcessed_run)
  assume "files w (staged_path s) \<noteq> Some Dir"
  then have "files w3 (staged_path s) = None"
    by (auto simp: w3_def cleanupApolloUrl_run sendEmailWebhook_run emit_def
          split: option.splits node.splits)
  then show "files (snd (fulfil e x s st w)) (staged_path s) = None"
    unfolding f
    by (simp add: markSessionProcessed_run(5) paths_distinct ensureProcessedDir_run)
qed

lemma hSP_finalises:
  assumes "\<not> in_ledger w (sid s)"
    and "truthy (pending_order w (sid s)) \<or> (present (metadata s ''leads'') \<and> present (metadata s ''email''))"
    and "trigger_ok x" and "field (recovered_order w s) ''apolloUrl'' = JStr u"
    and "files w PROCESSED_DIR = None \<or> files w PROCESSED_DIR = Some Dir"
  shows "in_ledger (handleSuccessfulPayment e x s w) (sid s)"
    and "files w (staged_path (sid s)) \<noteq> Some Dir \<Longrightarrow>
         files (handleSuccessfulPayment e x s w) (staged_path (sid s)) = None"
proof -
  obtain pre w' where p: "files w' = files (ensureProcessedDir w)"
     "files (handleSuccessfulPayment e x s w) = files (snd (fulfil e x (sid s) (recovered_order w s) w'))"
    using hSP_fulfil[OF assms(1,2)] by blast
  have d: "files w' PROCESSED_DIR = None \<or> files w' PROCESSED_DIR = Some Dir"
    using assms(5) by (auto simp: p(1) ensureProcessedDir_run)
  have l: "files w' (processed_path (sid s)) \<noteq> Some Dir"
    using assms(1) by (simp add: p(1) ensureProcessedDir_run paths_distinct in_ledger_def)
  show "in_ledger (handleSuccessfulPayment e x s w) (sid s)"
    using fulfil_ok_finalises(1)[OF assms(3,4) d l] by (simp add: in_ledger_def p(2))
  assume "files w (staged_path (sid s)) \<noteq> Some Dir"
  then have "files w' (staged_path (sid s)) \<noteq> Some Dir"
    by (simp add: p(1) ensureProcessedDir_run paths_distinct)
  then show "files (handleSuccessfulPayment e x s w) (staged_path (sid s)) = None"
    using fulfil_ok_finalises(2)[OF assms(3,4) d l] by (simp add: p(2))
qed

text \<open>
  Two deliveries of the event of a session, one after the other: when the first recovers an
  order with a URL and its job request comes back with a run, the two together send exactly
  one job request.
\<close>

lemma sequential_redelivery:
  assumes "req_method req = ''POST''" and "verified_event e x req = Inr ev"
    and "req_method req' = ''POST''" and "verified_event e x' req' = Inr ev'"
    and "ev_type ev = ''checkout.session.completed''" and "ev_type ev' = ''checkout.session.completed''"
    and "sid (ev_object ev') = sid (ev_object ev)"
    and "\<not> in_ledger w (sid (ev_object ev))"
    and "truthy (pending_order w (sid (ev_object ev))) \<or>
         (present (metadata (ev_object ev) ''leads'') \<and> present (metadata (ev_object ev) ''email''))"
    and "trigger_ok x" and "field (recovered_order w (ev_object ev)) ''apolloUrl'' = JStr u"
    and "files w PROCESSED_DIR = None \<or> files w PROCESSED_DIR = Some Dir"
  shows "filter is_job (new_effects w (serve e [(x, req), (x', req')] w)) =
           [ApifyRun (APOLLO_ACTOR_ID e) (APIFY_TOKEN e) (job_payload x (recovered_order w (ev_object ev)))]"
proof -
  define w1 where "w1 = handleSuccessfulPayment e x (ev_object ev) w"
  define w2 where "w2 = handleSuccessfulPayment e x' (ev_object ev') w1"
  have s: "serve e [(x, req), (x', req')] w = w2"
    using assms(1-6) by (simp add: handler_completed w1_def w2_def)
  have j1: "filter is_job (new_effects w w1) =
      [ApifyRun (APOLLO_ACTOR_ID e) (APIFY_TOKEN e) (job_payload x (recovered_order w (ev_object ev)))]"
    unfolding w1_def using assms(8,9) by (subst hSP_jobs) (simp_all add: assms(11))
  have led: "in_ledger w1 (sid (ev_object ev'))"
    unfolding w1_def assms(7) using assms(8-12) by (rule hSP_finalises)
  obtain pre where pre: "quiet pre" "trace w2 = trace w1 @ pre"
    using hSP_quiet(1)[of w1 "ev_object ev'" e x'] led unfolding w2_def by auto
  obtain t1 where t1: "trace w1 = trace w @ t1"
  proof (cases rule: hSP_cases[of e x "ev_object ev" w])
    case (quiet pre)
    then show ?thesis using that by (simp add: w1_def)
  next
    case (fulfil pre v)
    then show ?thesis
      using that fulfil_extends[of e x "sid (ev_object ev)" "recovered_order w (ev_object ev)" v]
      by (auto simp: w1_def)
  qed
  have "new_effects w w2 = t1 @ pre" using t1 pre(2) by (rule new_effects_trans)
  moreover have "new_effects w w1 = t1" using t1 by simp
  ultimately show ?thesis
    unfolding s using j1 quiet_filter[OF pre(1)] by simp
qed

section \<open>Claims about the webhook\<close>

text \<open>
  Claim C2. The job request should carry the flag the customer chose at checkout. The
  checkout stores the flag as the boolean it received; \<^verbatim>\<open>handleSuccessfulPayment\<close>
  sends \<^verbatim>\<open>cleanOutput === 'true'\<close>, which is false for every boolean. For the order
  staged with the flag \<^verbatim>\<open>true\<close> (its metadata says \<^verbatim>\<open>'true'\<close>), the one job request
  of the run carries \<^verbatim>\<open>cleanOutput: false\<close>.
\<close>

theorem C2_staged_order_sends_clean_output_false:
  "checkout_metadata 500 demo_url ''a@b.c'' (JBool True) ''t'' ''o'' ''cleanOutput'' = Some ''true''
   \<and> field (pending_order (snd (storeApolloUrl ''cs_test_1'' demo_url ''a@b.c'' 500 (JBool True) ''t'' empty_disk))
        ''cs_test_1'') ''cleanOutput'' = JBool True
   \<and> (\<exists>payload.
        filter is_job
          (new_effects (snd (storeApolloUrl ''cs_test_1'' demo_url ''a@b.c'' 500 (JBool True) ''t'' empty_disk))
            (snd (handler demo_env
                    (demo_ext (completed_event (checkout_metadata 500 demo_url ''a@b.c'' (JBool True) ''t'' ''o''))
                       run_started)
                    signed_post
                    (snd (storeApolloUrl ''cs_test_1'' demo_url ''a@b.c'' 500 (JBool True) ''t'' empty_disk))))) =
          [ApifyRun (APOLLO_ACTOR_ID demo_env) (APIFY_TOKEN demo_env) payload]
        \<and> get_prop payload ''url'' = Inr (JStr demo_url)
        \<and> get_prop payload ''cleanOutput'' = Inr (JBool False))"
proof -
  define w where "w = snd (storeApolloUrl ''cs_test_1'' demo_url ''a@b.c'' 500 (JBool True) ''t'' empty_disk)"
  define md where "md = checkout_metadata 500 demo_url ''a@b.c'' (JBool True) ''t'' ''o''"
  define s where "s = ev_object (completed_event md)"
  define st where "st = JObj [(''apolloUrl'', JStr demo_url), (''email'', JStr ''a@b.c''), (''leads'', JNum 500),
                                   (''cleanOutput'', JBool True), (''timestamp'', JStr ''t'')]"
  have sid: "sid s = ''cs_test_1''" by (simp add: s_def)
  have po: "pending_order w (sid s) = st" and nl: "\<not> in_ledger w (sid s)"
    unfolding w_def sid st_def by (rule staged_order_disk)+
  have r: "recovered_order w s = st" by (simp add: recovered_order_def po st_def)
  have "filter is_job (new_effects w (handleSuccessfulPayment demo_env (demo_ext (completed_event md) run_started) s w)) =
      [ApifyRun (APOLLO_ACTOR_ID demo_env) (APIFY_TOKEN demo_env)
         (job_payload (demo_ext (completed_event md) run_started) st)]"
    using nl by (subst hSP_jobs) (simp_all add: po r st_def field_def)
  moreover have "get_prop (job_payload (demo_ext (completed_event md) run_started) st) ''cleanOutput'' = Inr (JBool False)"
    "get_prop (job_payload (demo_ext (completed_event md) run_started) st) ''url'' = Inr (JStr demo_url)"
    by (simp_all add: job_payload_fields st_def field_def)
  moreover have "md ''cleanOutput'' = Some ''true''"
    by (simp add: md_def checkout_metadata_fields)
  moreover have "field (pending_order w ''cs_test_1'') ''cleanOutput'' = JBool True"
    using po by (simp add: sid st_def field_def)
  ultimately show ?thesis
    by (simp add: handler_completed w_def[symmetric] md_def[symmetric] s_def[symmetric])
qed

text \<open>
  Claim C4. An event whose verification fails (the library throws on the signature, on a
  missing header or on the body, or the body cannot be read) is answered with a client
  error, 400, and nothing else happens: the disk and the effects are as before. Every run
  of the orchestrator leaves effects, so the orchestrator did not run. (A request that is
  not a POST is answered 405 before any verification, with nothing else happening either.)
\<close>

theorem C4_invalid_signature_rejected:
  assumes "verified_event e x req = Inl msg"
  shows "status (fst (handler e x req w)) = (if req_method req = ''POST'' then 400 else 405)
       \<and> files (snd (handler e x req w)) = files w
       \<and> trace (snd (handler e x req w)) = trace w
       \<and> new_effects w (snd (handler e x req w)) = []
       \<and> (\<forall>s. trace (handleSuccessfulPayment e x s w) \<noteq> trace (snd (handler e x req w)))"
proof -
  have "trace (handleSuccessfulPayment e x s w) \<noteq> trace w" for s
    using hSP_trace_grows[of w e x s] by auto
  then show ?thesis
    using assms by (simp add: handler_def console_error_def new_effects_def)
qed

theorem C4_invalid_signature_rejected_witness:
  "status (fst (handler
      \<lparr>APIFY_TOKEN = Some ''t'', APOLLO_ACTOR_ID = None, EMAIL_WEBHOOK_URL = None,
       STRIPE_SECRET_KEY = Some ''sk'', STRIPE_WEBHOOK_SECRET = Some ''whsec''\<rparr>
      \<lparr>constructEvent = (\<lambda>b s k. Inl ''No signatures found matching the expected signature''),
       apify_response = NetworkError, email_response = NetworkError,
       random_index = (\<lambda>i. 0), now_iso = ''2024-01-01'', now_ms = 0\<rparr>
      \<lparr>req_method = ''POST'', stripe_signature = Some ''t=1,v1=00'', raw_body = Some ''{}''\<rparr>
      \<lparr>files = Map.empty, trace = [], errors = []\<rparr>)) = 400
   \<and> trace (snd (handler
      \<lparr>APIFY_TOKEN = Some ''t'', APOLLO_ACTOR_ID = None, EMAIL_WEBHOOK_URL = None,
       STRIPE_SECRET_KEY = Some ''sk'', STRIPE_WEBHOOK_SECRET = Some ''whsec''\<rparr>
      \<lparr>constructEvent = (\<lambda>b s k. Inl ''No signatures found matching the expected signature''),
       apify_response = NetworkError, email_response = NetworkError,
       random_index = (\<lambda>i. 0), now_iso = ''2024-01-01'', now_ms = 0\<rparr>
      \<lparr>req_method = ''POST'', stripe_signature = Some ''t=1,v1=00'', raw_body = Some ''{}''\<rparr>
      \<lparr>files = Map.empty, trace = [], errors = []\<rparr>)) = []"
proof -
  let ?e = "\<lparr>APIFY_TOKEN = Some ''t'', APOLLO_ACTOR_ID = None, EMAIL_WEBHOOK_URL = None,
       STRIPE_SECRET_KEY = Some ''sk'', STRIPE_WEBHOOK_SECRET = Some ''whsec''\<rparr>"
  let ?x = "\<lparr>constructEvent = (\<lambda>b s k. Inl ''No signatures found matching the expected signature''),
       apify_response = NetworkError, email_response = NetworkError,
       random_index = (\<lambda>i. 0), now_iso = ''2024-01-01'', now_ms = 0\<rparr>"
  let ?req = "\<lparr>req_method = ''POST'', stripe_signature = Some ''t=1,v1=00'', raw_body = Some ''{}''\<rparr>"
  have "verified_event ?e ?x ?req = Inl ''No signatures found matching the expected signature''"
    by (simp add: verified_event_def)
  from C4_invalid_signature_rejected[OF this, of "\<lparr>files = Map.empty, trace = [], errors = []\<rparr>"]
  show ?thesis by simp
qed

text \<open>
  Claim C5. Once the entry of a session is written to the ledger, it stays there whatever
  requests are handled afterwards, and every later verified payment-completed event of that
  session is answered 200 with no job request and no notification.
\<close>

theorem C5_ledger_is_one_way_gate:
  assumes "fst (markSessionProcessed x0 sessionId w0) = Inr ()"
    and "w = serve e reqs (snd (markSessionProcessed x0 sessionId w0))"
    and "req_method req = ''POST''" and "verified_event e x req = Inr ev"
    and "ev_type ev = ''checkout.session.completed''" and "sid (ev_object ev) = sessionId"
  shows "status (fst (handler e x req w)) = 200
       \<and> filter is_job (new_effects w (snd (handler e x req w))) = []
       \<and> filter is_notification (new_effects w (snd (handler e x req w))) = []
       \<and> fst (isSessionProcessed sessionId (snd (handler e x req w)))"
proof -
  have "in_ledger (snd (markSessionProcessed x0 sessionId w0)) sessionId"
    using assms(1) by (rule markSessionProcessed_run)
  then have led: "in_ledger w sessionId"
    unfolding assms(2) by (rule serve_keeps_ledger)
  have h: "handler e x req w =
     (\<lparr>status = 200, headers = [], body = Some (JObj [(''received'', JBool True)])\<rparr>,
      handleSuccessfulPayment e x (ev_object ev) w)"
    using assms(3-5) by (rule handler_completed)
  obtain pre where pre: "quiet pre" "trace (handleSuccessfulPayment e x (ev_object ev) w) = trace w @ pre"
    using hSP_quiet(1)[of w "ev_object ev" e x] led assms(6) by auto
  have "in_ledger (handleSuccessfulPayment e x (ev_object ev) w) sessionId"
    using led by (rule hSP_keeps_ledger)
  then show ?thesis
    using pre quiet_filter[OF pre(1)] by (simp add: h isSessionProcessed_run)
qed

theorem C5_ledger_is_one_way_gate_witness:
  "status (fst (handler demo_env (demo_ext (completed_event Map.empty) run_started) signed_post
      (serve demo_env [(demo_ext (completed_event Map.empty) run_started, signed_post)]
        (snd (markSessionProcessed (demo_ext (completed_event Map.empty) run_started) ''cs_test_1'' empty_disk))))) = 200
   \<and> filter is_job (new_effects
      (serve demo_env [(demo_ext (completed_event Map.empty) run_started, signed_post)]
        (snd (markSessionProcessed (demo_ext (completed_event Map.empty) run_started) ''cs_test_1'' empty_disk)))
      (snd (handler demo_env (demo_ext (completed_event Map.empty) run_started) signed_post
      (serve demo_env [(demo_ext (completed_event Map.empty) run_started, signed_post)]
        (snd (markSessionProcessed (demo_ext (completed_event Map.empty) run_started) ''cs_test_1'' empty_disk)))))) = []"
proof -
  let ?x = "demo_ext (completed_event Map.empty) run_started"
  have m: "fst (markSessionProcessed ?x ''cs_test_1'' empty_disk) = Inr ()" by (rule demo_mark)
  show ?thesis
    using C5_ledger_is_one_way_gate[where e = demo_env and x = ?x and req = signed_post
        and ev = "completed_event Map.empty" and reqs = "[(?x, signed_post)]"
        and ?x0.0 = ?x and sessionId = "''cs_test_1''" and ?w0.0 = empty_disk, OF m refl]
    by simp
qed

text \<open>
  Claim C6. A verified payment-completed event with no pending order in the staging store
  and a complete metadata envelope should trigger exactly one job, on the URL decoded from
  the chunks. The first delivery of the event of an order placed at checkout is fulfilled:
  the session is then in the ledger and its pending order is deleted. The same event
  delivered again is a verified event with no pending order and a complete envelope, and
  it triggers no job.
\<close>

theorem C6_redelivery_counterexample:
  "present (checkout_metadata 500 demo_url ''a@b.c'' (JBool True) ''t'' ''o'' ''leads'')
   \<and> present (checkout_metadata 500 demo_url ''a@b.c'' (JBool True) ''t'' ''o'' ''email'')
   \<and> fullApolloUrl (checkout_metadata 500 demo_url ''a@b.c'' (JBool True) ''t'' ''o'') = JStr demo_url
   \<and> \<not> truthy (pending_order
         (snd (handler demo_env
                 (demo_ext (completed_event (checkout_metadata 500 demo_url ''a@b.c'' (JBool True) ''t'' ''o''))
                    run_started)
                 signed_post empty_disk))
         ''cs_test_1'')
   \<and> filter is_job
       (new_effects
          (snd (handler demo_env
                  (demo_ext (completed_event (checkout_metadata 500 demo_url ''a@b.c'' (JBool True) ''t'' ''o''))
                     run_started)
                  signed_post empty_disk))
          (snd (handler demo_env
                  (demo_ext (completed_event (checkout_metadata 500 demo_url ''a@b.c'' (JBool True) ''t'' ''o''))
                     run_started)
                  signed_post
                  (snd (handler demo_env
                          (demo_ext (completed_event (checkout_metadata 500 demo_url ''a@b.c'' (JBool True) ''t'' ''o''))
                             run_started)
                          signed_post empty_disk))))) = []"
proof -
  define md where "md = checkout_metadata 500 demo_url ''a@b.c'' (JBool True) ''t'' ''o''"
  define x where "x = demo_ext (completed_event md) run_started"
  define s where "s = ev_object (completed_event md)"
  define w where "w = handleSuccessfulPayment demo_env x s empty_disk"
  have sid: "sid s = ''cs_test_1''" by (simp add: s_def)
  have h: "handler demo_env x signed_post v = 
     (\<lparr>status = 200, headers = [], body = Some (JObj [(''received'', JBool True)])\<rparr>,
      handleSuccessfulPayment demo_env x s v)" for v
    unfolding x_def s_def by (rule handler_completed) simp_all
  have p: "present (md ''leads'')" "present (md ''email'')"
    using checkout_metadata_complete(1,2)[where leads = 500 and url = demo_url and email = "''a@b.c''"
        and co = "JBool True" and ts = "''t''" and oid = "''o''"]
    by (simp_all add: md_def)
  have u: "fullApolloUrl md = JStr demo_url"
    unfolding md_def by (rule fullApolloUrl_checkout)
  have a: "\<not> in_ledger empty_disk (sid s)"
    "truthy (pending_order empty_disk (sid s)) \<or> (present (metadata s ''leads'') \<and> present (metadata s ''email''))"
    "trigger_ok x"
    "field (recovered_order empty_disk s) ''apolloUrl'' = JStr demo_url"
    using p u by (simp_all add: sid s_def x_def recovered_order_def field_metadata_order)
  have d: "files empty_disk PROCESSED_DIR = None \<or> files empty_disk PROCESSED_DIR = Some Dir"
    "files empty_disk (staged_path (sid s)) \<noteq> Some Dir"
    by (simp_all add: empty_disk_def)
  have led: "in_ledger w (sid s)"
    unfolding w_def using a d(1) by (rule hSP_finalises)
  have "files w (staged_path (sid s)) = None"
    unfolding w_def using a d by (rule hSP_finalises)
  then have po: "pending_order w ''cs_test_1'' = JNull"
    by (simp add: pending_order_def retrieveApolloUrl_miss sid)
  obtain pre where pre: "quiet pre"
      "trace (handleSuccessfulPayment demo_env x s w) = trace w @ pre"
    using hSP_quiet(1)[of w s] led by auto
  have "filter is_job (new_effects w (snd (handler demo_env x signed_post w))) = []"
    using pre quiet_filter[OF pre(1)] by (simp add: h)
  moreover have "snd (handler demo_env x signed_post empty_disk) = w"
    by (simp add: h w_def)
  ultimately show ?thesis
    using po p u by (simp add: x_def[symmetric] md_def[symmetric])
qed

text \<open>
  Claim C6, as the code has it: for a session that is not in the ledger. Then, with no
  pending order, \<^verbatim>\<open>leads\<close> and \<^verbatim>\<open>email\<close> present and every chunk up to the
  chunk count present, the run sends exactly one job request, whose URL is the one decoded
  from the chunks, whatever the truncated copy is (and whether or not the request succeeds).
\<close>

theorem C6_fallback_job_uses_reconstructed_url:
  assumes "req_method req = ''POST''" and "verified_event e x req = Inr ev"
    and "ev_type ev = ''checkout.session.completed''"
    and "\<not> in_ledger w (sid (ev_object ev))"
    and "\<not> truthy (pending_order w (sid (ev_object ev)))"
    and "present (metadata (ev_object ev) ''leads'')" and "present (metadata (ev_object ev) ''email'')"
    and "metadata (ev_object ev) ''urlChunkCount'' = Some c" and "parseInt c = Some k"
    and "\<forall>i < nat k. present (metadata (ev_object ev) (chunk_key i))"
  shows "\<exists>payload.
     filter is_job (new_effects w (snd (handler e x req w))) =
       [ApifyRun (APOLLO_ACTOR_ID e) (APIFY_TOKEN e) payload]
     \<and> get_prop payload ''url'' =
         Inr (JStr (b64_decode (concat (map (\<lambda>i. the (metadata (ev_object ev) (chunk_key i))) [0..<nat k]))))"
proof -
  define s where "s = ev_object ev"
  have r: "recovered_order w s = metadata_order (metadata s)"
    using assms(5) by (simp add: recovered_order_def s_def)
  have u: "fullApolloUrl (metadata s) =
      JStr (b64_decode (concat (map (\<lambda>i. the (metadata s (chunk_key i))) [0..<nat k])))"
    using assms(8-10) unfolding s_def by (intro fullApolloUrl_complete) auto
  have "filter is_job (new_effects w (handleSuccessfulPayment e x s w)) =
      [ApifyRun (APOLLO_ACTOR_ID e) (APIFY_TOKEN e) (job_payload x (metadata_order (metadata s)))]"
    using assms(4,6,7) unfolding s_def[symmetric]
    by (subst hSP_jobs) (simp_all add: r field_metadata_order u)
  moreover have "get_prop (job_payload x (metadata_order (metadata s))) ''url'' =
      Inr (JStr (b64_decode (concat (map (\<lambda>i. the (metadata s (chunk_key i))) [0..<nat k]))))"
    by (simp add: job_payload_fields field_metadata_order u)
  ultimately show ?thesis
    using assms(1-3) by (simp add: handler_completed s_def)
qed

theorem C6_fallback_job_uses_reconstructed_url_witness:
  "\<exists>payload.
     filter is_job (new_effects empty_disk
        (snd (handler demo_env
           (demo_ext (completed_event (checkout_metadata 500 demo_url ''a@b.c'' (JBool True) ''t'' ''o'')) run_started)
           signed_post empty_disk))) =
       [ApifyRun (APOLLO_ACTOR_ID demo_env) (APIFY_TOKEN demo_env) payload]
     \<and> get_prop payload ''url'' =
         Inr (JStr (b64_decode (concat (map (\<lambda>i. the (checkout_metadata 500 demo_url ''a@b.c'' (JBool True) ''t'' ''o'' (chunk_key i)))
           [0..<nat (int (length (url_chunks 0 (b64_encode demo_url))))]))))"
proof -
  let ?md = "checkout_metadata 500 demo_url ''a@b.c'' (JBool True) ''t'' ''o''"
  let ?x = "demo_ext (completed_event ?md) run_started"
  have a: "\<not> in_ledger empty_disk (sid (ev_object (completed_event ?md)))"
    "\<not> truthy (pending_order empty_disk (sid (ev_object (completed_event ?md))))"
    by simp_all
  have b: "present (metadata (ev_object (completed_event ?md)) ''leads'')"
    "present (metadata (ev_object (completed_event ?md)) ''email'')"
    "metadata (ev_object (completed_event ?md)) ''urlChunkCount'' =
       Some (decimal (length (url_chunks 0 (b64_encode demo_url))))"
    "\<forall>i < nat (int (length (url_chunks 0 (b64_encode demo_url)))).
       present (metadata (ev_object (completed_event ?md)) (chunk_key i))"
    using checkout_metadata_complete[where leads = 500 and url = demo_url and email = "''a@b.c''"
        and co = "JBool True" and ts = "''t''" and oid = "''o''"]
    by simp_all
  from C6_fallback_job_uses_reconstructed_url[where e = demo_env and x = ?x and req = signed_post
      and ev = "completed_event ?md" and w = empty_disk,
      OF demo_verified(2) demo_verified(1) demo_verified(3) a b(1,2,3) parseInt_decimal b(4)]
  show ?thesis by simp
qed

text \<open>
  Claim C7. The entry of the ledger is written only after the job request came back with a
  run and after the notification step: in the effects of a run the write of the entry is
  the last one, the job request stands before it, and so does the notification when a
  channel is configured. When no job request goes out or the request fails, the run writes
  and deletes no file: the disk is as before (but for the ledger directory, which the check
  creates when it is missing), the pending order is still there and the session is not in
  the ledger unless it was.
\<close>

theorem C7_ledger_written_only_after_job:
  assumes "req_method req = ''POST''" and "verified_event e x req = Inr ev"
    and "ev_type ev = ''checkout.session.completed''"
  shows "((filter is_job (new_effects w (snd (handler e x req w))) = [] \<or> \<not> trigger_ok x) \<longrightarrow>
            filter is_write (new_effects w (snd (handler e x req w))) = []
            \<and> files (snd (handler e x req w)) = files (ensureProcessedDir w)
            \<and> in_ledger (snd (handler e x req w)) (sid (ev_object ev)) = in_ledger w (sid (ev_object ev))
            \<and> pending_order (snd (handler e x req w)) (sid (ev_object ev)) =
                pending_order w (sid (ev_object ev)))
       \<and> (\<forall>doc. FsWrite (processed_path (sid (ev_object ev))) doc
                   \<in> set (new_effects w (snd (handler e x req w))) \<longrightarrow>
            trigger_ok x
            \<and> (\<exists>pre a t p mid.
                  quiet pre
                  \<and> new_effects w (snd (handler e x req w)) =
                      pre @ ApifyRun a t p # mid @ [FsWrite (processed_path (sid (ev_object ev))) doc]
                  \<and> filter is_job mid = []
                  \<and> (present (EMAIL_WEBHOOK_URL e) \<longrightarrow> filter is_notification mid \<noteq> [])))"
proof -
  define s where "s = ev_object ev"
  define w' where "w' = handleSuccessfulPayment e x s w"
  have h: "snd (handler e x req w) = w'"
    unfolding s_def w'_def using assms by (simp add: handler_completed)
  have "((filter is_job (new_effects w w') = [] \<or> \<not> trigger_ok x) \<longrightarrow>
            filter is_write (new_effects w w') = []
            \<and> files w' = files (ensureProcessedDir w)
            \<and> in_ledger w' (sid s) = in_ledger w (sid s)
            \<and> pending_order w' (sid s) = pending_order w (sid s))
       \<and> (\<forall>doc. FsWrite (processed_path (sid s)) doc \<in> set (new_effects w w') \<longrightarrow>
            trigger_ok x
            \<and> (\<exists>pre a t p mid.
                  quiet pre
                  \<and> new_effects w w' = pre @ ApifyRun a t p # mid @ [FsWrite (processed_path (sid s)) doc]
                  \<and> filter is_job mid = []
                  \<and> (present (EMAIL_WEBHOOK_URL e) \<longrightarrow> filter is_notification mid \<noteq> [])))"
  proof (cases rule: hSP_cases[of e x s w])
    case (quiet pre)
    have n: "new_effects w w' = pre" using quiet(2) by (simp add: w'_def)
    have f: "files w' = files (ensureProcessedDir w)" using quiet(3) by (simp add: w'_def)
    show ?thesis
      using quiet(1) quiet_filter[OF quiet(1)] quiet_no_write[OF quiet(1)] f
        in_ledger_cong[OF f] pending_order_cong[OF f]
      by (simp add: n ensureProcessedDir_frame)
  next
    case (fulfil pre v)
    define st where "st = recovered_order w s"
    show ?thesis
    proof (cases "trigger_ok x \<and> (\<exists>u. field st ''apolloUrl'' = JStr u)")
      case True
      then obtain u where ok: "trigger_ok x" and u: "field st ''apolloUrl'' = JStr u" by blast
      define mid where "mid =
        (if present (EMAIL_WEBHOOK_URL e)
         then [EmailPost (the (EMAIL_WEBHOOK_URL e))
                 (JObj [(''email'', field st ''email''),
                        (''leadCount'', num_json (parseInt_js (field st ''leads''))),
                        (''apolloUrl'', JStr u), (''timestamp'', JStr (now_iso x)),
                        (''service'', JStr ''apollo-scraper''),
                        (''fileName'', JStr (generateRandomFileName x)),
                        (''source'', JStr ''stripe-payment'')])]
         else []) @
        FsExists (staged_path (sid s)) # (if files v (staged_path (sid s)) \<noteq> None then [FsUnlink (staged_path (sid s))] else []) @
        FsExists PROCESSED_DIR # (if files v PROCESSED_DIR = None then [FsMkdir PROCESSED_DIR] else [])"
      define doc0 where "doc0 = JObj [(''sessionId'', JStr (sid s)), (''processedAt'', JStr (now_iso x)),
                  (''timestamp'', JNum (now_ms x))]"
      have t: "trace (snd (fulfil e x (sid s) st v)) =
          trace v @ ApifyRun (APOLLO_ACTOR_ID e) (APIFY_TOKEN e) (job_payload x st) # mid @
            [FsWrite (processed_path (sid s)) doc0]"
        by (simp add: fulfil_ok_run(1)[OF ok u] mid_def doc0_def)
      have n: "new_effects w w' =
          pre @ ApifyRun (APOLLO_ACTOR_ID e) (APIFY_TOKEN e) (job_payload x st) # mid @
            [FsWrite (processed_path (sid s)) doc0]"
      proof -
        have "trace w' = trace (snd (fulfil e x (sid s) st v))"
          by (simp add: w'_def fulfil(5) st_def)
        with fulfil(2) t show ?thesis by (simp add: new_effects_def)
      qed
      have m: "filter is_job mid = []" "present (EMAIL_WEBHOOK_URL e) \<longrightarrow> filter is_notification mid \<noteq> []"
        "\<And>d. FsWrite (processed_path (sid s)) d \<notin> set mid"
        by (auto simp: mid_def)
      have jobs: "filter is_job (new_effects w w') \<noteq> []" by (simp add: n)
      have "doc = doc0" if "FsWrite (processed_path (sid s)) doc \<in> set (new_effects w w')" for doc
        using that quiet_no_write[OF fulfil(1)] m(3) by (auto simp: n)
      then show ?thesis
        using jobs ok fulfil(1) n m(1,2) by blast
    next
      case False
      have f: "files w' = files (ensureProcessedDir w)"
        using fulfil_fail(1)[OF False, of e "sid s" v] fulfil(3) by (simp add: w'_def fulfil(4) st_def)
      have t: "trace (snd (fulfil e x (sid s) st v)) =
           trace v @ (case field st ''apolloUrl'' of
                        JStr u \<Rightarrow> [ApifyRun (APOLLO_ACTOR_ID e) (APIFY_TOKEN e) (job_payload x st)]
                      | _ \<Rightarrow> [])"
        by (rule fulfil_fail(2)[OF False])
      have n: "new_effects w w' = pre @ (case field st ''apolloUrl'' of
                        JStr u \<Rightarrow> [ApifyRun (APOLLO_ACTOR_ID e) (APIFY_TOKEN e) (job_payload x st)]
                      | _ \<Rightarrow> [])"
      proof -
        have "trace w' = trace (snd (fulfil e x (sid s) st v))"
          by (simp add: w'_def fulfil(5) st_def)
        with fulfil(2) t show ?thesis by (simp add: new_effects_def)
      qed
      have "filter is_write (new_effects w w') = []"
        "\<And>d. FsWrite (processed_path (sid s)) d \<notin> set (new_effects w w')"
        using quiet_filter[OF fulfil(1)] quiet_no_write[OF fulfil(1)]
        by (auto simp: n split: jsval.splits)
      then show ?thesis
        using f in_ledger_cong[OF f] pending_order_cong[OF f]
        by (simp add: ensureProcessedDir_frame)
    qed
  qed
  then show ?thesis unfolding h s_def .
qed

theorem C7_ledger_written_only_after_job_witness:
  "filter is_write
     (new_effects (snd (storeApolloUrl ''cs_test_1'' demo_url ''a@b.c'' 500 (JBool True) ''t'' empty_disk))
        (snd (handler demo_env (demo_ext (completed_event Map.empty) (HttpResponse 500 None)) signed_post
                (snd (storeApolloUrl ''cs_test_1'' demo_url ''a@b.c'' 500 (JBool True) ''t'' empty_disk))))) = []
   \<and> pending_order
        (snd (handler demo_env (demo_ext (completed_event Map.empty) (HttpResponse 500 None)) signed_post
                (snd (storeApolloUrl ''cs_test_1'' demo_url ''a@b.c'' 500 (JBool True) ''t'' empty_disk))))
        ''cs_test_1'' =
       JObj [(''apolloUrl'', JStr demo_url), (''email'', JStr ''a@b.c''), (''leads'', JNum 500),
             (''cleanOutput'', JBool True), (''timestamp'', JStr ''t'')]
   \<and> \<not> in_ledger
        (snd (handler demo_env (demo_ext (completed_event Map.empty) (HttpResponse 500 None)) signed_post
                (snd (storeApolloUrl ''cs_test_1'' demo_url ''a@b.c'' 500 (JBool True) ''t'' empty_disk))))
        ''cs_test_1''"
proof -
  let ?w = "snd (storeApolloUrl ''cs_test_1'' demo_url ''a@b.c'' 500 (JBool True) ''t'' empty_disk)"
  let ?x = "demo_ext (completed_event Map.empty) (HttpResponse 500 None)"
  from C7_ledger_written_only_after_job[where e = demo_env and x = ?x and req = signed_post
      and ev = "completed_event Map.empty" and w = ?w,
      OF demo_verified(2) demo_verified(1) demo_verified(3)]
  show ?thesis
    using staged_order_disk(1)[where s = "''cs_test_1''" and u = demo_url and m = "''a@b.c''"
        and l = 500 and c = "JBool True" and ts = "''t''"]
      staged_order_disk(2)[where s = "''cs_test_1''" and u = demo_url and m = "''a@b.c''" and l = 500
        and c = "JBool True" and ts = "''t''" and t = "''cs_test_1''"]
    by simp
qed

text \<open>
  Claim C8. When the lookup in the staging store misses and the metadata lacks
  \<^verbatim>\<open>leads\<close> or \<^verbatim>\<open>email\<close>, the run should also report the failure to the
  notification channel when one is configured. With the channel configured and no
  \<^verbatim>\<open>email\<close> in the metadata, nothing is sent to it.
\<close>

theorem C8_no_failure_report_counterexample:
  "present (EMAIL_WEBHOOK_URL demo_env)
   \<and> \<not> truthy (pending_order empty_disk ''cs_test_1'')
   \<and> \<not> present ([''leads'' \<mapsto> ''500''] ''email'')
   \<and> filter is_notification
        (new_effects empty_disk
           (snd (handler demo_env (demo_ext (completed_event [''leads'' \<mapsto> ''500'']) run_started)
                   signed_post empty_disk))) = []"
proof -
  let ?md = "[''leads'' \<mapsto> ''500''] :: metadata"
  let ?x = "demo_ext (completed_event ?md) run_started"
  have miss: "\<not> present (metadata (ev_object (completed_event ?md)) ''email'')"
    by (simp add: present_def)
  obtain pre where pre: "quiet pre"
      "trace (handleSuccessfulPayment demo_env ?x (ev_object (completed_event ?md)) empty_disk) =
         trace empty_disk @ pre"
    using hSP_quiet(1)[of empty_disk "ev_object (completed_event ?md)" demo_env ?x] miss by auto
  have "filter is_notification (new_effects empty_disk (snd (handler demo_env ?x signed_post empty_disk))) = []"
    using pre quiet_filter[OF pre(1)] by (simp add: handler_completed)
  then show ?thesis
    by (simp add: present_def demo_env_def)
qed

text \<open>
  Claim C8, as the code has it: for a session that is not in the ledger, when the lookup in
  the staging store misses and the metadata lacks \<^verbatim>\<open>leads\<close> or \<^verbatim>\<open>email\<close>, the
  run logs the two errors and stops: no job request, no notification (configured or not),
  no file written or deleted, and the event is answered 200.
\<close>

theorem C8_missing_metadata_aborts:
  assumes "req_method req = ''POST''" and "verified_event e x req = Inr ev"
    and "ev_type ev = ''checkout.session.completed''"
    and "\<not> in_ledger w (sid (ev_object ev))"
    and "\<not> truthy (pending_order w (sid (ev_object ev)))"
    and "\<not> present (metadata (ev_object ev) ''leads'') \<or> \<not> present (metadata (ev_object ev) ''email'')"
  shows "status (fst (handler e x req w)) = 200
       \<and> filter is_job (new_effects w (snd (handler e x req w))) = []
       \<and> filter is_notification (new_effects w (snd (handler e x req w))) = []
       \<and> filter is_write (new_effects w (snd (handler e x req w))) = []
       \<and> (\<exists>l. errors (snd (handler e x req w)) =
                 l @ [''No stored Apollo URL found for session:'',
                      ''Missing required metadata in session:''])
       \<and> files (snd (handler e x req w)) = files (ensureProcessedDir w)"
proof -
  define s where "s = ev_object ev"
  have h: "handler e x req w =
     (\<lparr>status = 200, headers = [], body = Some (JObj [(''received'', JBool True)])\<rparr>,
      handleSuccessfulPayment e x s w)"
    unfolding s_def using assms(1-3) by (rule handler_completed)
  have q: "in_ledger w (sid s) \<or>
     (\<not> truthy (pending_order w (sid s)) \<and>
      (\<not> present (metadata s ''leads'') \<or> \<not> present (metadata s ''email'')))"
    using assms(5,6) by (simp add: s_def)
  obtain pre where pre: "quiet pre" "trace (handleSuccessfulPayment e x s w) = trace w @ pre"
    using hSP_quiet(1)[OF q] by blast
  have f: "files (handleSuccessfulPayment e x s w) = files (ensureProcessedDir w)"
    using hSP_quiet(2)[OF q] .
  have "handleSuccessfulPayment e x s w =
     console_error ''Missing required metadata in session:''
       (console_error ''No stored Apollo URL found for session:''
         (snd (retrieveApolloUrl (sid s) (snd (isSessionProcessed (sid s) w)))))"
    using assms(4-6) by (auto simp: hSP_unfold s_def)
  then have "\<exists>l. errors (handleSuccessfulPayment e x s w) =
       l @ [''No stored Apollo URL found for session:'', ''Missing required metadata in session:'']"
    by (simp add: console_error_def)
  then show ?thesis
    using pre quiet_filter[OF pre(1)] f by (simp add: h)
qed

theorem C8_missing_metadata_aborts_witness:
  "status (fst (handler demo_env (demo_ext (completed_event [''leads'' \<mapsto> ''500'']) run_started)
                   signed_post empty_disk)) = 200
   \<and> filter is_job
        (new_effects empty_disk
           (snd (handler demo_env (demo_ext (completed_event [''leads'' \<mapsto> ''500'']) run_started)
                   signed_post empty_disk))) = []
   \<and> filter is_write
        (new_effects empty_disk
           (snd (handler demo_env (demo_ext (completed_event [''leads'' \<mapsto> ''500'']) run_started)
                   signed_post empty_disk))) = []"
proof -
  let ?md = "[''leads'' \<mapsto> ''500''] :: metadata"
  let ?x = "demo_ext (completed_event ?md) run_started"
  have a: "\<not> in_ledger empty_disk (sid (ev_object (completed_event ?md)))"
    "\<not> truthy (pending_order empty_disk (sid (ev_object (completed_event ?md))))"
    by simp_all
  have b: "\<not> present (metadata (ev_object (completed_event ?md)) ''leads'')
         \<or> \<not> present (metadata (ev_object (completed_event ?md)) ''email'')"
    by (simp add: present_def)
  from C8_missing_metadata_aborts[where e = demo_env and x = ?x and req = signed_post
      and ev = "completed_event ?md" and w = empty_disk,
      OF demo_verified(2) demo_verified(1) demo_verified(3) a b]
  show ?thesis by simp
qed

section \<open>Claims about the result normaliser\<close>












lemma spec_example:
  "cleanData [JObj [(''a'', JNull), (''b'', JStr ''''),
                    (''c'', JObj [(''d'', JStr ''x''), (''e'', JNull)]),
                    (''f'', JArr [JNum 1, JNull, JStr ''''])]]
   = Inr [JObj [(''c'', JObj [(''d'', JStr ''x'')]), (''f'', JArr [JNum 1])]]"
proof -
  have "cleanData [JObj [(''d'', JStr ''x''), (''e'', JNull)]] = Inr [JObj [(''d'', JStr ''x'')]]"
    by (subst cleanData.simps) (simp add: is_blank_def)
  then show ?thesis
    by (subst cleanData.simps) (simp add: is_blank_def)
qed




end
